theory Spec2Isabelle
  imports Complex_Main
begin

section \<open>Python values\<close>

text \<open>
  A Python \<open>str\<close> is a sequence of Unicode code points, so a string is modelled as the
  list of its code points: \<open>len\<close>, slicing (\<open>s[:2]\<close>) and the substring test
  (\<open>a in s\<close>) then count what Python counts. \<open>ascii\<close> turns a literal of ASCII
  characters into that form.
\<close>

type_synonym ustr = "nat list"

definition ascii :: "string \<Rightarrow> ustr" where
  "ascii s = map of_char s"

text \<open>The exceptions that the modelled code can raise.\<close>

datatype py_error =
  KeyError | TypeError | ValueError | OverflowError | ZeroDivisionError | IndexError | OSError

text \<open>
  The values that \<open>json.load\<close> returns: \<open>None\<close>, \<open>bool\<close>, \<open>int\<close>, \<open>float\<close>,
  \<open>str\<close>, \<open>list\<close> and \<open>dict\<close> (whose keys are strings, kept in file order). A
  finite \<open>float\<close> is the rational number it denotes; the non-finite literals
  \<open>NaN\<close> and \<open>Infinity\<close> that Python's reader also accepts have no value here.
\<close>

datatype pyval =
  PNone
| PBool bool
| PInt int
| PFloat rat
| PStr ustr
| PList "pyval list"
| PDict "(ustr \<times> pyval) list"

text \<open>\<open>s.startswith(p)\<close> and the substring test \<open>p in s\<close>.\<close>

fun startswith :: "ustr \<Rightarrow> ustr \<Rightarrow> bool" where
  "startswith s [] = True"
| "startswith [] (p # ps) = False"
| "startswith (c # cs) (p # ps) = (c = p \<and> startswith cs ps)"

fun py_in :: "ustr \<Rightarrow> ustr \<Rightarrow> bool" where
  "py_in p [] = (p = [])"
| "py_in p (c # cs) = (startswith (c # cs) p \<or> py_in p cs)"

text \<open>
  \<open>str.isspace\<close>: the code points that \<open>str.strip()\<close> removes from both ends.
\<close>

definition isspace :: "nat \<Rightarrow> bool" where
  "isspace c = (c \<in> set [9, 10, 11, 12, 13, 28, 29, 30, 31, 32, 133, 160, 5760,
     8192, 8193, 8194, 8195, 8196, 8197, 8198, 8199, 8200, 8201, 8202,
     8232, 8233, 8239, 8287, 12288])"

definition strip :: "ustr \<Rightarrow> ustr" where
  "strip s = rev (dropWhile isspace (rev (dropWhile isspace s)))"

text \<open>
  A Python \<open>float\<close> is an IEEE double: a finite one is the rational number it
  denotes. \<open>to_double\<close> rounds a rational to the nearest double, ties to the even
  mantissa, as float arithmetic does with the exact result of an operation: the
  mantissa has 53 bits, the smallest step is \<open>2^-1074\<close>, and a rounded value of
  \<open>2^1024\<close> or more is an infinity.
\<close>

datatype pyfloat = Finite rat | PosInf | NegInf | NotANumber

fun bit_length :: "nat \<Rightarrow> nat" where
  "bit_length n = (if n = 0 then 0 else Suc (bit_length (n div 2)))"

declare bit_length.simps [simp del]

text \<open>For \<open>a > 0\<close>, the exponent \<open>e\<close> with \<open>2^e \<le> a < 2^(e+1)\<close>.\<close>

definition float_exponent :: "rat \<Rightarrow> int" where
  "float_exponent a =
     (if 1 \<le> a then int (bit_length (nat \<lfloor>a\<rfloor>)) - 1
      else - int (bit_length (nat (\<lceil>1 / a\<rceil> - 1))))"

definition round_half_even :: "rat \<Rightarrow> int" where
  "round_half_even r =
     (let f = \<lfloor>r\<rfloor>; d = r - of_int f
      in if d < 1 / 2 then f else if 1 / 2 < d then f + 1
         else if even f then f else f + 1)"

definition to_double :: "rat \<Rightarrow> pyfloat" where
  "to_double q =
     (if q = 0 then Finite 0
      else
        (let a = \<bar>q\<bar>;
             p = max (float_exponent a - 52) (- 1074);
             r = of_int (round_half_even (a / 2 powi p)) * 2 powi p
         in if 2 ^ 1024 \<le> r then (if 0 < q then PosInf else NegInf)
            else Finite (if 0 < q then r else - r)))"

text \<open>
  \<open>x / s\<close> for an \<open>int\<close> \<open>x\<close> and a float \<open>s\<close>: the integer is converted to a
  float (\<open>OverflowError\<close> if it is too large), a zero divisor raises
  \<open>ZeroDivisionError\<close>, and the quotient is rounded.
\<close>

definition py_truediv :: "int \<Rightarrow> rat \<Rightarrow> py_error + pyfloat" where
  "py_truediv x s =
     (case to_double (of_int x) of
        Finite fx \<Rightarrow> if s = 0 then Inl ZeroDivisionError else Inr (to_double (fx / s))
      | _ \<Rightarrow> Inl OverflowError)"

text \<open>
  \<open>int(x)\<close> of a float truncates toward zero; an infinity raises
  \<open>OverflowError\<close> and a NaN \<open>ValueError\<close>.
\<close>

definition int_of_float :: "rat \<Rightarrow> int" where
  "int_of_float q = (if 0 \<le> q then \<lfloor>q\<rfloor> else - \<lfloor>- q\<rfloor>)"

fun int_of_pyfloat :: "pyfloat \<Rightarrow> py_error + int" where
  "int_of_pyfloat (Finite q) = Inr (int_of_float q)"
| "int_of_pyfloat PosInf = Inl OverflowError"
| "int_of_pyfloat NegInf = Inl OverflowError"
| "int_of_pyfloat NotANumber = Inl ValueError"

text \<open>
  \<open>int(v)\<close> of a JSON value. What \<open>int\<close> makes of a string is decided by Python's
  own parser, which is not part of this program: it is the parameter \<open>int_str\<close>,
  and everything proved below holds for every such function.
\<close>

fun py_int :: "(ustr \<Rightarrow> py_error + int) \<Rightarrow> pyval \<Rightarrow> py_error + int" where
  "py_int int_str (PInt i) = Inr i"
| "py_int int_str (PBool b) = Inr (if b then 1 else 0)"
| "py_int int_str (PFloat q) = Inr (int_of_float q)"
| "py_int int_str (PStr s) = int_str s"
| "py_int int_str PNone = Inl TypeError"
| "py_int int_str (PList xs) = Inl TypeError"
| "py_int int_str (PDict kvs) = Inl TypeError"

text \<open>
  \<open>item[key]\<close> with a string key: a \<open>dict\<close> raises \<open>KeyError\<close> for an absent key;
  every other JSON value raises \<open>TypeError\<close> (a list or string wants integer
  indices, the rest is not subscriptable).
\<close>

fun getitem :: "pyval \<Rightarrow> ustr \<Rightarrow> py_error + pyval" where
  "getitem (PDict kvs) k = (case map_of kvs k of None \<Rightarrow> Inl KeyError | Some v \<Rightarrow> Inr v)"
| "getitem v k = Inl TypeError"

text \<open>
  \<open>for item in config\<close>: a list yields its elements, a dict its keys, a string its
  characters; anything else is not iterable.
\<close>

fun py_iter :: "pyval \<Rightarrow> py_error + pyval list" where
  "py_iter (PList xs) = Inr xs"
| "py_iter (PDict kvs) = Inr (map (\<lambda>kv. PStr (fst kv)) kvs)"
| "py_iter (PStr s) = Inr (map (\<lambda>c. PStr [c]) s)"
| "py_iter v = Inl TypeError"

text \<open>
  The numbers among the values, by their numeric value: \<open>bool\<close> is a subclass of
  \<open>int\<close>. \<open>max(a, b)\<close> returns \<open>b\<close> only if \<open>b > a\<close>, and raises \<open>TypeError\<close>
  when \<open>b\<close> cannot be compared with a number.
\<close>

fun num_value :: "pyval \<Rightarrow> rat option" where
  "num_value (PInt i) = Some (of_int i)"
| "num_value (PBool b) = Some (if b then 1 else 0)"
| "num_value (PFloat q) = Some q"
| "num_value v = None"

definition py_max :: "pyval \<Rightarrow> pyval \<Rightarrow> py_error + pyval" where
  "py_max a b =
     (case (num_value a, num_value b) of
        (Some x, Some y) \<Rightarrow> Inr (if x < y then b else a)
      | _ \<Rightarrow> Inl TypeError)"

text \<open>\<open>n + k\<close> for an integer constant \<open>k\<close>.\<close>

fun py_add :: "pyval \<Rightarrow> int \<Rightarrow> py_error + pyval" where
  "py_add (PInt i) k = Inr (PInt (i + k))"
| "py_add (PBool b) k = Inr (PInt ((if b then 1 else 0) + k))"
| "py_add (PFloat q) k = Inr (PFloat (q + of_int k))"
| "py_add v k = Inl TypeError"


section \<open>The region store of \<open>ImageCropWidget\<close>\<close>

text \<open>
  A \<open>QRect\<close> as the code builds and reads it: by \<open>x, y, width, height\<close>. Qt keeps
  C \<open>int\<close> coordinates, and PyQt raises \<open>OverflowError\<close> for an argument outside
  that range. \<open>right()\<close> and \<open>bottom()\<close> are Qt's inclusive edges
  \<open>x + width - 1\<close> and \<open>y + height - 1\<close>, computed in C \<open>int\<close> arithmetic,
  which wraps around.
\<close>

record qrect =
  rect_x :: int
  rect_y :: int
  rect_width :: int
  rect_height :: int

definition c_int :: "int \<Rightarrow> bool" where
  "c_int v = (- 2147483648 \<le> v \<and> v \<le> 2147483647)"

definition QRect :: "int \<Rightarrow> int \<Rightarrow> int \<Rightarrow> int \<Rightarrow> py_error + qrect" where
  "QRect a b w h =
     (if c_int a \<and> c_int b \<and> c_int w \<and> c_int h
      then Inr \<lparr>rect_x = a, rect_y = b, rect_width = w, rect_height = h\<rparr>
      else Inl OverflowError)"

definition c_int_wrap :: "int \<Rightarrow> int" where
  "c_int_wrap v = (v + 2147483648) mod 4294967296 - 2147483648"

definition rect_right :: "qrect \<Rightarrow> int" where
  "rect_right r = c_int_wrap (rect_x r + rect_width r - 1)"

definition rect_bottom :: "qrect \<Rightarrow> int" where
  "rect_bottom r = c_int_wrap (rect_y r + rect_height r - 1)"

text \<open>
  The widget's state as far as regions go: \<open>self.rectangles\<close>, a list of
  \<open>(rect, question_number)\<close> pairs, \<open>self.current_question_number\<close> and
  \<open>self.scale_factor\<close>. The question number of a pair is whatever Python value was
  stored: an \<open>int\<close> from drawing, any JSON value from a loaded file.
\<close>

record crop_widget =
  scale_factor :: rat
  rectangles :: "(qrect \<times> pyval) list"
  current_question_number :: pyval

definition init_widget :: "rat \<Rightarrow> crop_widget" where
  "init_widget s = \<lparr>scale_factor = s, rectangles = [], current_question_number = PInt 1\<rparr>"

text \<open>
  \<open>mouseReleaseEvent\<close>, for a left-button release that ends a drag; \<open>rect\<close> is
  \<open>QRect(start_point, end_point).normalized()\<close>. The result says whether the
  rectangle was admitted.
\<close>

definition mouseReleaseEvent :: "crop_widget \<Rightarrow> qrect \<Rightarrow> py_error + (bool \<times> crop_widget)" where
  "mouseReleaseEvent w rect =
     (if rect_width rect > 10 \<and> rect_height rect > 10 then
        (case py_add (current_question_number w) 1 of
           Inl e \<Rightarrow> Inl e
         | Inr n \<Rightarrow> Inr (True, w\<lparr>rectangles := rectangles w @ [(rect, current_question_number w)],
                                 current_question_number := n\<rparr>))
      else Inr (False, w))"

definition clear_last :: "crop_widget \<Rightarrow> py_error + crop_widget" where
  "clear_last w =
     (if rectangles w \<noteq> [] then
        (case py_add (current_question_number w) (- 1) of
           Inl e \<Rightarrow> Inl e
         | Inr n \<Rightarrow> Inr (w\<lparr>rectangles := butlast (rectangles w), current_question_number := n\<rparr>))
      else Inr w)"

definition clear_all :: "crop_widget \<Rightarrow> crop_widget" where
  "clear_all w = w\<lparr>rectangles := [], current_question_number := PInt 1\<rparr>"

text \<open>
  \<open>save_regions_config\<close> builds one dict per region; \<open>json.dump\<close> then writes the
  list. The model returns the list that is written.
\<close>

definition region_record :: "qrect \<times> pyval \<Rightarrow> pyval" where
  "region_record p =
     PDict [(ascii ''question_number'', snd p),
            (ascii ''x'', PInt (rect_x (fst p))),
            (ascii ''y'', PInt (rect_y (fst p))),
            (ascii ''width'', PInt (rect_width (fst p))),
            (ascii ''height'', PInt (rect_height (fst p)))]"

definition save_regions_config :: "crop_widget \<Rightarrow> pyval" where
  "save_regions_config w = PList (map region_record (rectangles w))"

text \<open>
  \<open>load_regions_config\<close>. Its first argument is Python's \<open>int\<close> on strings (see
  \<open>py_int\<close>); its last argument is what opening the file and \<open>json.load\<close> gave: \<open>Inl\<close> when either raised, else the parsed document. One pass of the loop
  body builds the rectangle (\<open>load_rect\<close>), appends the pair and only then updates
  \<open>max_qnum\<close>; the loop \<open>load_items\<close> carries the list and \<open>max_qnum\<close> and, when an
  item raises, hands back the list as the exception left it. The \<open>except\<close> clause
  returns \<open>False\<close> with \<open>self.rectangles\<close> in that state.
\<close>

definition load_rect :: "(ustr \<Rightarrow> py_error + int) \<Rightarrow> pyval \<Rightarrow> py_error + qrect" where
  "load_rect int_str item =
     (case getitem item (ascii ''x'') of Inl e \<Rightarrow> Inl e | Inr vx \<Rightarrow>
      case py_int int_str vx of Inl e \<Rightarrow> Inl e | Inr a \<Rightarrow>
      case getitem item (ascii ''y'') of Inl e \<Rightarrow> Inl e | Inr vy \<Rightarrow>
      case py_int int_str vy of Inl e \<Rightarrow> Inl e | Inr b \<Rightarrow>
      case getitem item (ascii ''width'') of Inl e \<Rightarrow> Inl e | Inr vw \<Rightarrow>
      case py_int int_str vw of Inl e \<Rightarrow> Inl e | Inr c \<Rightarrow>
      case getitem item (ascii ''height'') of Inl e \<Rightarrow> Inl e | Inr vh \<Rightarrow>
      case py_int int_str vh of Inl e \<Rightarrow> Inl e | Inr d \<Rightarrow> QRect a b c d)"

fun load_items ::
  "(ustr \<Rightarrow> py_error + int) \<Rightarrow> pyval list \<Rightarrow> (qrect \<times> pyval) list \<Rightarrow> pyval \<Rightarrow>
     (py_error \<times> (qrect \<times> pyval) list) + ((qrect \<times> pyval) list \<times> pyval)" where
  "load_items int_str [] rects max_qnum = Inr (rects, max_qnum)"
| "load_items int_str (item # items) rects max_qnum =
     (case load_rect int_str item of Inl e \<Rightarrow> Inl (e, rects) | Inr rect \<Rightarrow>
      case getitem item (ascii ''question_number'') of Inl e \<Rightarrow> Inl (e, rects) | Inr qnum \<Rightarrow>
      case py_max max_qnum qnum of
        Inl e \<Rightarrow> Inl (e, rects @ [(rect, qnum)])
      | Inr m \<Rightarrow> load_items int_str items (rects @ [(rect, qnum)]) m)"

definition load_regions_config ::
  "(ustr \<Rightarrow> py_error + int) \<Rightarrow> crop_widget \<Rightarrow> py_error + pyval \<Rightarrow> bool \<times> crop_widget" where
  "load_regions_config int_str w file =
     (case file of
        Inl e \<Rightarrow> (False, w)
      | Inr config \<Rightarrow>
          (case py_iter config of
             Inl e \<Rightarrow> (False, w\<lparr>rectangles := []\<rparr>)
           | Inr items \<Rightarrow>
               (case load_items int_str items [] (PInt 0) of
                  Inl (e, rects) \<Rightarrow> (False, w\<lparr>rectangles := rects\<rparr>)
                | Inr (rects, max_qnum) \<Rightarrow>
                    (case py_add max_qnum 1 of
                       Inl e \<Rightarrow> (False, w\<lparr>rectangles := rects\<rparr>)
                     | Inr n \<Rightarrow> (True, w\<lparr>rectangles := rects, current_question_number := n\<rparr>)))))"



text \<open>
  The widget states that drawing, undoing and clearing produce from a fresh widget. A
  drawn rectangle is a \<open>QRect\<close>, so its four numbers are C \<open>int\<close>s.
\<close>

definition rect_ok :: "qrect \<Rightarrow> bool" where
  "rect_ok r =
     (c_int (rect_x r) \<and> c_int (rect_y r) \<and> c_int (rect_width r) \<and> c_int (rect_height r))"

inductive reachable :: "crop_widget \<Rightarrow> bool" where
  reach_init: "reachable (init_widget s)"
| reach_append:
    "reachable w \<Longrightarrow> rect_ok rect \<Longrightarrow> mouseReleaseEvent w rect = Inr (b, w') \<Longrightarrow> reachable w'"
| reach_undo: "reachable w \<Longrightarrow> clear_last w = Inr w' \<Longrightarrow> reachable w'"
| reach_clear: "reachable w \<Longrightarrow> reachable (clear_all w)"

text \<open>The regions of such a state are numbered \<open>k, k + 1, \<dots>\<close> in list order.\<close>

definition numbered_from :: "int \<Rightarrow> (qrect \<times> pyval) list \<Rightarrow> bool" where
  "numbered_from k rs =
     (\<forall>j < length rs. rect_ok (fst (rs ! j)) \<and> snd (rs ! j) = PInt (k + int j))"

definition numbered :: "crop_widget \<Rightarrow> bool" where
  "numbered w =
     (numbered_from 1 (rectangles w) \<and>
      current_question_number w = PInt (1 + int (length (rectangles w))))"

text \<open>Example data: a widget holding one drawn region, and records of a file.\<close>

definition one_region_widget :: crop_widget where
  "one_region_widget =
     \<lparr>scale_factor = 1,
      rectangles = [(\<lparr>rect_x = 0, rect_y = 0, rect_width = 20, rect_height = 20\<rparr>, PInt 1)],
      current_question_number = PInt 2\<rparr>"

definition region_json :: "int \<Rightarrow> int \<Rightarrow> int \<Rightarrow> int \<Rightarrow> int \<Rightarrow> pyval" where
  "region_json q a b c d =
     PDict [(ascii ''question_number'', PInt q), (ascii ''x'', PInt a), (ascii ''y'', PInt b),
            (ascii ''width'', PInt c), (ascii ''height'', PInt d)]"



section \<open>Cropping\<close>

text \<open>
  \<open>get_cropped_regions\<close>. \<open>self.scale_factor\<close> is a float, given by the rational
  it denotes; each coordinate is divided by it in float arithmetic and the quotient is
  truncated by \<open>int\<close>. \<open>original_image.crop\<close> belongs to the imaging library, not
  to this program: it is the parameter \<open>crop\<close>, a function from the box
  \<open>(x1, y1, x2, y2)\<close> to the cropped image or to the exception that the library
  raises for that box, and what is proved below holds for every such function.

  \<open>sorted(self.rectangles, key=lambda x: x[1])\<close> is a stable sort by question
  number. Numbers compare by value; a question number that is not a number (a failed
  load can leave one, as the last entry) cannot be compared with the others, so the
  sort raises \<open>TypeError\<close> unless that entry is alone.
\<close>

type_synonym box = "int \<times> int \<times> int \<times> int"

definition sorted_by_qnum :: "(qrect \<times> pyval) list \<Rightarrow> py_error + (qrect \<times> pyval) list" where
  "sorted_by_qnum rs =
     (if list_all (\<lambda>p. num_value (snd p) \<noteq> None) rs
        then Inr (sort_key (\<lambda>p. the (num_value (snd p))) rs)
      else if length rs \<le> 1 then Inr rs
      else Inl TypeError)"

text \<open>\<open>int(v / self.scale_factor)\<close> for a coordinate \<open>v\<close>.\<close>

definition to_original :: "rat \<Rightarrow> int \<Rightarrow> py_error + int" where
  "to_original s v =
     (case py_truediv v s of Inl e \<Rightarrow> Inl e | Inr f \<Rightarrow> int_of_pyfloat f)"

text \<open>The box of a rectangle: the four coordinates, in the order the loop computes them.\<close>

definition crop_box :: "rat \<Rightarrow> qrect \<Rightarrow> py_error + box" where
  "crop_box s rect =
     (case to_original s (rect_x rect) of Inl e \<Rightarrow> Inl e | Inr x1 \<Rightarrow>
      case to_original s (rect_y rect) of Inl e \<Rightarrow> Inl e | Inr y1 \<Rightarrow>
      case to_original s (rect_right rect) of Inl e \<Rightarrow> Inl e | Inr x2 \<Rightarrow>
      case to_original s (rect_bottom rect) of Inl e \<Rightarrow> Inl e | Inr y2 \<Rightarrow>
        Inr (x1, y1, x2, y2))"

fun crop_all ::
  "(box \<Rightarrow> py_error + 'img) \<Rightarrow> rat \<Rightarrow> (qrect \<times> pyval) list \<Rightarrow> py_error + (pyval \<times> 'img) list" where
  "crop_all crop s [] = Inr []"
| "crop_all crop s (p # rest) =
     (case crop_box s (fst p) of
        Inl e \<Rightarrow> Inl e
      | Inr b \<Rightarrow>
          (case crop b of
             Inl e \<Rightarrow> Inl e
           | Inr cropped \<Rightarrow>
               (case crop_all crop s rest of
                  Inl e \<Rightarrow> Inl e
                | Inr regions \<Rightarrow> Inr ((snd p, cropped) # regions))))"

definition get_cropped_regions ::
  "(box \<Rightarrow> py_error + 'img) \<Rightarrow> crop_widget \<Rightarrow> py_error + (pyval \<times> 'img) list" where
  "get_cropped_regions crop w =
     (case sorted_by_qnum (rectangles w) of
        Inl e \<Rightarrow> Inl e
      | Inr sorted_rects \<Rightarrow> crop_all crop (scale_factor w) sorted_rects)"

text \<open>
  The stores on which cropping runs through: every question number is a number, and
  for every region the box can be computed and \<open>crop\<close> accepts it.
\<close>

definition all_numbers :: "(qrect \<times> pyval) list \<Rightarrow> bool" where
  "all_numbers rs = list_all (\<lambda>p. num_value (snd p) \<noteq> None) rs"

definition croppable :: "(box \<Rightarrow> py_error + 'img) \<Rightarrow> rat \<Rightarrow> qrect \<Rightarrow> bool" where
  "croppable crop s rect =
     (case crop_box s rect of
        Inl e \<Rightarrow> False
      | Inr b \<Rightarrow> (case crop b of Inl e \<Rightarrow> False | Inr cropped \<Rightarrow> True))"

text \<open>
  For the examples, an image is stood for by its box: \<open>box_crop\<close> hands the box back,
  and refuses, as Pillow's \<open>crop\<close> does, a box whose right edge is left of its left
  edge or whose lower edge is above its upper edge.
\<close>

definition box_crop :: "box \<Rightarrow> py_error + box" where
  "box_crop b =
     (case b of (x1, y1, x2, y2) \<Rightarrow> if x2 < x1 \<or> y2 < y1 then Inl ValueError else Inr b)"

definition half_scale_widget :: crop_widget where
  "half_scale_widget =
     \<lparr>scale_factor = 1 / 2,
      rectangles = [(\<lparr>rect_x = 100, rect_y = 100, rect_width = 50, rect_height = 50\<rparr>, PInt 1)],
      current_question_number = PInt 2\<rparr>"

definition negative_corner_widget :: crop_widget where
  "negative_corner_widget =
     \<lparr>scale_factor = 3 / 4,
      rectangles = [(\<lparr>rect_x = - 1, rect_y = - 1, rect_width = 50, rect_height = 50\<rparr>, PInt 1)],
      current_question_number = PInt 2\<rparr>"

text \<open>
  A widget whose scale factor is the float that \<open>192 / 194\<close> gives (a display width
  over an original width).
\<close>

definition rounded_scale_widget :: crop_widget where
  "rounded_scale_widget =
     \<lparr>scale_factor = 278573172827041 / 281474976710656,
      rectangles = [(\<lparr>rect_x = 96, rect_y = 0, rect_width = 50, rect_height = 50\<rparr>, PInt 1)],
      current_question_number = PInt 2\<rparr>"


section \<open>The score sheet\<close>

text \<open>
  A cell of the sheet as pandas hands it over. The code looks at a cell in three ways:
  \<open>pd.isna(v)\<close>, \<open>str(v)\<close> and \<open>float(v)\<close>. Python's float parser and its
  float printer are not part of this program, so a text cell carries what \<open>float\<close>
  makes of it (\<open>None\<close>: it raises \<open>ValueError\<close>) and a numeric cell carries its
  \<open>str\<close>. \<open>NaN\<close> is the missing cell; \<open>Num\<close> is an \<open>int\<close>, \<open>float\<close> or
  \<open>bool\<close> cell by its value; \<open>Obj\<close> is any other object (a date), on which
  \<open>float\<close> raises \<open>TypeError\<close>.
\<close>

datatype cell =
  NaN
| Num rat ustr
| Str ustr "pyfloat option"
| Obj ustr

fun pd_isna :: "cell \<Rightarrow> bool" where
  "pd_isna NaN = True"
| "pd_isna v = False"

fun py_str :: "cell \<Rightarrow> ustr" where
  "py_str NaN = ascii ''nan''"
| "py_str (Num v s) = s"
| "py_str (Str s f) = s"
| "py_str (Obj s) = s"

fun py_float :: "cell \<Rightarrow> py_error + pyfloat" where
  "py_float NaN = Inr NotANumber"
| "py_float (Num v s) = Inr (Finite v)"
| "py_float (Str s None) = Inl ValueError"
| "py_float (Str s (Some f)) = Inr f"
| "py_float (Obj s) = Inl TypeError"

text \<open>The marker strings of the code, as code points.\<close>

definition name_marker :: ustr where      \<comment> \<open>the two characters "xing ming" (full name)\<close>
  "name_marker = [22995, 21517]"

definition student_marker :: ustr where   \<comment> \<open>"xue sheng" (student)\<close>
  "student_marker = [23398, 29983]"

definition full_score_marker :: ustr where  \<comment> \<open>"man fen" (full marks)\<close>
  "full_score_marker = [28385, 20998]"

definition question_marker :: ustr where  \<comment> \<open>"ti" (question)\<close>
  "question_marker = [39064]"

definition score_label :: ustr where      \<comment> \<open>"de fen" (score obtained)\<close>
  "score_label = [24471, 20998]"

definition subjective_char :: nat where   \<comment> \<open>"zhu"\<close>
  "subjective_char = 20027"

definition objective_char :: nat where    \<comment> \<open>"ke"\<close>
  "objective_char = 23458"

text \<open>
  \<open>s.lower()\<close>, needed only for the test \<open>'name' in s.lower()\<close>: ASCII capitals
  become small letters. Other letters also change in Python, but none of them becomes
  one of \<open>n, a, m, e\<close>, so the test is not affected by leaving them as they are.
\<close>

definition py_lower :: "ustr \<Rightarrow> ustr" where
  "py_lower s = map (\<lambda>c. if 65 \<le> c \<and> c \<le> 90 then c + 32 else c) s"

text \<open>
  \<open>s.isdigit()\<close>: the string is not empty and every character is a digit, by the
  character table of Unicode 14 (ranges of code points, both ends included).
\<close>

definition digit_ranges :: "(nat \<times> nat) list" where
  "digit_ranges =
    [(48, 57), (178, 179), (185, 185), (1632, 1641), (1776, 1785), (1984, 1993),
     (2406, 2415), (2534, 2543), (2662, 2671), (2790, 2799), (2918, 2927), (3046, 3055),
     (3174, 3183), (3302, 3311), (3430, 3439), (3558, 3567), (3664, 3673), (3792, 3801),
     (3872, 3881), (4160, 4169), (4240, 4249), (4969, 4977), (6112, 6121), (6160, 6169),
     (6470, 6479), (6608, 6618), (6784, 6793), (6800, 6809), (6992, 7001), (7088, 7097),
     (7232, 7241), (7248, 7257), (8304, 8304), (8308, 8313), (8320, 8329), (9312, 9320),
     (9332, 9340), (9352, 9360), (9450, 9450), (9461, 9469), (9471, 9471), (10102, 10110),
     (10112, 10120), (10122, 10130), (42528, 42537), (43216, 43225), (43264, 43273),
     (43472, 43481), (43504, 43513), (43600, 43609), (44016, 44025), (65296, 65305),
     (66720, 66729), (68160, 68163), (68912, 68921), (69216, 69224), (69714, 69722),
     (69734, 69743), (69872, 69881), (69942, 69951), (70096, 70105), (70384, 70393),
     (70736, 70745), (70864, 70873), (71248, 71257), (71360, 71369), (71472, 71481),
     (71904, 71913), (72016, 72025), (72784, 72793), (73040, 73049), (73120, 73129),
     (92768, 92777), (92864, 92873), (93008, 93017), (120782, 120831), (123200, 123209),
     (123632, 123641), (125264, 125273), (127232, 127242), (130032, 130041)]"

definition isdigit :: "ustr \<Rightarrow> bool" where
  "isdigit s = (s \<noteq> [] \<and> list_all (\<lambda>c. list_ex (\<lambda>r. fst r \<le> c \<and> c \<le> snd r) digit_ranges) s)"

text \<open>\<open>s.replace(c, '')\<close> for a single character \<open>c\<close>, and \<open>sep.join(xs)\<close>.\<close>

definition remove_char :: "nat \<Rightarrow> ustr \<Rightarrow> ustr" where
  "remove_char c s = filter (\<lambda>d. d \<noteq> c) s"

fun py_join :: "ustr \<Rightarrow> ustr list \<Rightarrow> ustr" where
  "py_join sep [] = []"
| "py_join sep [x] = x"
| "py_join sep (x # y # ys) = x @ sep @ py_join sep (y # ys)"


subsection \<open>\<open>load_excel\<close>\<close>

text \<open>
  \<open>df_raw = pd.read_excel(filename, header=None)\<close> is the raw grid, a list of rows.
  \<open>pd.read_excel(filename, header=h)\<close> reads the same sheet with row \<open>h\<close> as the
  header and the rows below it as data. A table keeps the header row as cells: the
  column labels that pandas derives from them are not needed here.
\<close>

type_synonym grid = "cell list list"

record table =
  header_cells :: "cell list"
  data_rows :: "cell list list"

definition read_excel :: "grid \<Rightarrow> nat \<Rightarrow> table" where
  "read_excel df_raw h =
     \<lparr>header_cells = (if h < length df_raw then df_raw ! h else []),
      data_rows = drop (Suc h) df_raw\<rparr>"

text \<open>\<open>any('...' in str(val) for val in row_values)\<close> for the name marker.\<close>

definition has_name_marker :: "cell list \<Rightarrow> bool" where
  "has_name_marker row_values = list_ex (\<lambda>val. py_in name_marker (py_str val)) row_values"

text \<open>The loop \<open>for i in range(min(5, len(df_raw)))\<close> with its \<open>break\<close>.\<close>

fun scan_rows :: "grid \<Rightarrow> nat list \<Rightarrow> nat option" where
  "scan_rows df_raw [] = None"
| "scan_rows df_raw (i # rest) =
     (if has_name_marker (df_raw ! i) then Some i else scan_rows df_raw rest)"

definition find_header_row :: "grid \<Rightarrow> nat option" where
  "find_header_row df_raw = scan_rows df_raw [0 ..< min 5 (length df_raw)]"

text \<open>
  The test on the first data row, \<open>'...' in ' '.join(first_data_row)\<close>, and
  \<open>dropna(how='all')\<close>, which drops the rows whose cells are all missing.
\<close>

definition is_score_label_row :: "cell list \<Rightarrow> bool" where
  "is_score_label_row row = py_in score_label (py_join [32] (map py_str row))"

definition dropna_all :: "table \<Rightarrow> table" where
  "dropna_all df = df\<lparr>data_rows := filter (\<lambda>row. \<not> list_all pd_isna row) (data_rows df)\<rparr>"

definition drop_score_label_row :: "table \<Rightarrow> table" where
  "drop_score_label_row df =
     (case data_rows df of
        [] \<Rightarrow> df
      | first_data_row # others \<Rightarrow>
          if is_score_label_row first_data_row then df\<lparr>data_rows := others\<rparr> else df)"

definition load_excel :: "grid \<Rightarrow> table" where
  "load_excel df_raw =
     dropna_all
       (case find_header_row df_raw of
          Some header_row \<Rightarrow> drop_score_label_row (read_excel df_raw header_row)
        | None \<Rightarrow> read_excel df_raw 0)"


subsection \<open>\<open>analyze_questions\<close>\<close>

text \<open>
  The frame that is analysed: its column labels, and its rows as pandas' \<open>iterrows\<close>
  yields them, each giving the cell under a label. A label is a string, or another
  object (a number, when the header cell was numeric) known by its \<open>str\<close>; a string
  never equals such an object, which is what \<open>col_str != name_column\<close> compares.
\<close>

datatype label = StrLabel ustr | ObjLabel ustr

fun label_str :: "label \<Rightarrow> ustr" where
  "label_str (StrLabel s) = s"
| "label_str (ObjLabel s) = s"

record dataframe =
  columns :: "label list"
  rows :: "(label \<Rightarrow> cell) list"

text \<open>The search for the name column, and the fallback by position.\<close>

definition is_name_header :: "ustr \<Rightarrow> bool" where
  "is_name_header col_str =
     (py_in name_marker col_str \<or> py_in (ascii ''name'') (py_lower col_str) \<or>
      py_in student_marker col_str)"

fun first_name_column :: "label list \<Rightarrow> label option" where
  "first_name_column [] = None"
| "first_name_column (col # cols) =
     (if is_name_header (label_str col) then Some col else first_name_column cols)"

definition find_name_column :: "label list \<Rightarrow> py_error + label" where
  "find_name_column cols =
     (case first_name_column cols of
        Some col \<Rightarrow> Inr col
      | None \<Rightarrow>
          if length cols > 2 then Inr (cols ! 2)
          else if length cols > 1 then Inr (cols ! 1)
          else if length cols > 0 then Inr (cols ! 0)
          else Inl IndexError)"

text \<open>The loop that collects the question columns and splits them.\<close>

record classification =
  all_question_columns :: "label list"
  subjective_columns :: "label list"
  objective_columns :: "label list"

definition is_question_column :: "label \<Rightarrow> label \<Rightarrow> bool" where
  "is_question_column name_column col =
     (let col_str = label_str col in
        py_in full_score_marker col_str \<or> py_in question_marker col_str \<or>
        (isdigit (remove_char 45 (remove_char 46 col_str)) \<and> name_column \<noteq> StrLabel col_str))"

definition is_subjective_header :: "ustr \<Rightarrow> bool" where
  "is_subjective_header col_str =
     (py_in [subjective_char, 45] col_str \<or> py_in [subjective_char] (take 2 col_str))"

definition is_objective_header :: "ustr \<Rightarrow> bool" where
  "is_objective_header col_str =
     (py_in [objective_char, 45] col_str \<or> py_in [objective_char] (take 2 col_str))"

definition classify_column :: "label \<Rightarrow> label \<Rightarrow> classification \<Rightarrow> classification" where
  "classify_column name_column col c =
     (if is_question_column name_column col then
        (let c1 = c\<lparr>all_question_columns := all_question_columns c @ [col]\<rparr> in
           if is_subjective_header (label_str col)
             then c1\<lparr>subjective_columns := subjective_columns c1 @ [col]\<rparr>
           else if is_objective_header (label_str col)
             then c1\<lparr>objective_columns := objective_columns c1 @ [col]\<rparr>
           else c1\<lparr>subjective_columns := subjective_columns c1 @ [col]\<rparr>)
      else c)"

definition classify_columns :: "label \<Rightarrow> label list \<Rightarrow> classification" where
  "classify_columns name_column cols =
     fold (classify_column name_column) cols
       \<lparr>all_question_columns = [], subjective_columns = [], objective_columns = []\<rparr>"

definition choose_score_columns :: "classification \<Rightarrow> label list" where
  "choose_score_columns c =
     (if length (subjective_columns c) > 0 then subjective_columns c
      else all_question_columns c)"

text \<open>
  The loop over the rows of one column. \<open>total_students\<close> only feeds the progress
  output and is left out.
\<close>

record tally =
  wrong_students :: "ustr list"
  correct_count :: nat
  wrong_count :: nat

record question_stats = tally +
  correct_rate :: rat
  column_name :: label

definition header_echo :: "ustr list" where
  "header_echo = [name_marker, student_marker, ascii ''name'', ascii ''Name'']"

definition unanswered_tokens :: "ustr list" where
  "unanswered_tokens = [ascii ''-'', [], ascii ''nan'', ascii ''NaN'']"

definition score_row :: "label \<Rightarrow> label \<Rightarrow> (label \<Rightarrow> cell) \<Rightarrow> tally \<Rightarrow> tally" where
  "score_row name_column col row t =
     (if pd_isna (row name_column) \<or> strip (py_str (row name_column)) = [] then t
      else
        (let student_name = strip (py_str (row name_column)) in
           if student_name \<in> set header_echo then t
           else
             (let score = row col; score_str = strip (py_str score) in
                if score_str \<in> set unanswered_tokens then t
                else
                  (case py_float score of
                     Inl e \<Rightarrow> t
                   | Inr score_val \<Rightarrow>
                       if score_val = Finite 0
                         then t\<lparr>wrong_students := wrong_students t @ [student_name],
                                wrong_count := wrong_count t + 1\<rparr>
                       else t\<lparr>correct_count := correct_count t + 1\<rparr>))))"

definition column_stats :: "label \<Rightarrow> dataframe \<Rightarrow> label \<Rightarrow> question_stats" where
  "column_stats name_column df col =
     (let t = fold (score_row name_column col) (rows df)
                \<lparr>wrong_students = [], correct_count = 0, wrong_count = 0\<rparr>;
          total = correct_count t + wrong_count t
      in \<lparr>wrong_students = wrong_students t, correct_count = correct_count t,
          wrong_count = wrong_count t,
          correct_rate =
            (if total > 0 then of_nat (correct_count t) / of_nat total * 100 else 0),
          column_name = col\<rparr>)"

text \<open>
  \<open>for idx, col in enumerate(score_columns, 1): ... stats[idx] = {...}\<close>, and the
  whole of \<open>analyze_questions\<close>. The only exception is the \<open>IndexError\<close> of the
  name column fallback on a frame without columns.
\<close>

fun analyze_columns ::
  "label \<Rightarrow> dataframe \<Rightarrow> nat \<Rightarrow> label list \<Rightarrow> (nat \<rightharpoonup> question_stats) \<Rightarrow> (nat \<rightharpoonup> question_stats)" where
  "analyze_columns name_column df idx [] stats = stats"
| "analyze_columns name_column df idx (col # cols) stats =
     analyze_columns name_column df (Suc idx) cols
       (stats(idx \<mapsto> column_stats name_column df col))"

definition analyze_questions :: "dataframe \<Rightarrow> py_error + (nat \<rightharpoonup> question_stats)" where
  "analyze_questions df =
     (case find_name_column (columns df) of
        Inl e \<Rightarrow> Inl e
      | Inr name_column \<Rightarrow>
          Inr (analyze_columns name_column df 1
                 (choose_score_columns (classify_columns name_column (columns df)))
                 Map.empty))"


section \<open>Notions used in the statements\<close>

text \<open>
  Where a question column goes: the \<open>if\<close>/\<open>elif\<close>/\<open>else\<close> of the
  classification loop, as two predicates on columns.
\<close>

definition goes_subjective :: "label \<Rightarrow> label \<Rightarrow> bool" where
  "goes_subjective name_column col =
     (is_question_column name_column col \<and>
      (is_subjective_header (label_str col) \<or> \<not> is_objective_header (label_str col)))"

definition goes_objective :: "label \<Rightarrow> label \<Rightarrow> bool" where
  "goes_objective name_column col =
     (is_question_column name_column col \<and>
      \<not> is_subjective_header (label_str col) \<and> is_objective_header (label_str col))"

text \<open>
  The tests of the scoring loop. A row is skipped for its name cell (missing, blank, or
  an echo of the header); a score cell is unanswered when its stripped text is one of the
  four tokens; it is not scorable when it is unanswered or \<open>float\<close> raises on it. The
  rows that count as wrong and as correct for a column are the remaining ones, by
  whether the number is zero.
\<close>

definition row_skipped :: "label \<Rightarrow> (label \<Rightarrow> cell) \<Rightarrow> bool" where
  "row_skipped name_column row =
     (pd_isna (row name_column) \<or> strip (py_str (row name_column)) = [] \<or>
      strip (py_str (row name_column)) \<in> set header_echo)"

definition unanswered :: "cell \<Rightarrow> bool" where
  "unanswered score = (strip (py_str score) \<in> set unanswered_tokens)"

definition not_scorable :: "cell \<Rightarrow> bool" where
  "not_scorable score = (unanswered score \<or> (case py_float score of Inl e \<Rightarrow> True | Inr v \<Rightarrow> False))"

definition zero_scored :: "label \<Rightarrow> label \<Rightarrow> (label \<Rightarrow> cell) \<Rightarrow> bool" where
  "zero_scored name_column col row =
     (\<not> row_skipped name_column row \<and> \<not> unanswered (row col) \<and>
      py_float (row col) = Inr (Finite 0))"

definition nonzero_scored :: "label \<Rightarrow> label \<Rightarrow> (label \<Rightarrow> cell) \<Rightarrow> bool" where
  "nonzero_scored name_column col row =
     (\<not> row_skipped name_column row \<and> \<not> unanswered (row col) \<and>
      (case py_float (row col) of Inl e \<Rightarrow> False | Inr v \<Rightarrow> v \<noteq> Finite 0))"

text \<open>
  Example data: the headers "xue sheng da ti" (student answers), "zhu-1 (man fen:2)",
  "ke-1 (man fen:1)" and "xue hao" (student number); a sheet with a title row above
  the header, a score-label row and an empty row below it; a sheet without a name
  column; and a frame of three students with an objective and a subjective column.
\<close>

definition student_answers_header :: ustr where
  "student_answers_header = [23398, 29983, 31572, 39064]"

definition subjective_1_header :: ustr where
  "subjective_1_header = [20027, 45, 49, 32, 40, 28385, 20998, 58, 50, 41]"

definition objective_1_header :: ustr where
  "objective_1_header = [23458, 45, 49, 32, 40, 28385, 20998, 58, 49, 41]"

definition student_no_header :: ustr where
  "student_no_header = [23398, 21495]"

definition text_cell :: "ustr \<Rightarrow> cell" where
  "text_cell s = Str s None"

definition alice :: ustr where "alice = ascii ''Alice''"
definition bob :: ustr where "bob = ascii ''Bob''"
definition carol :: ustr where "carol = ascii ''Carol''"

definition titled_grid :: grid where
  "titled_grid =
     [[text_cell [25104, 32489], NaN],
      [text_cell name_marker, text_cell subjective_1_header],
      [NaN, text_cell score_label],
      [NaN, NaN],
      [text_cell alice, Num 2 (ascii ''2'')],
      [text_cell bob, Num 0 (ascii ''0'')]]"

definition unmarked_grid :: grid where
  "unmarked_grid =
     [[text_cell student_no_header, text_cell [25104, 32489]],
      [text_cell score_label, text_cell score_label],
      [Num 1 (ascii ''1''), Num 2 (ascii ''2'')]]"

definition example_row :: "ustr \<Rightarrow> cell \<Rightarrow> cell \<Rightarrow> label \<Rightarrow> cell" where
  "example_row name objective subjective col =
     (if col = StrLabel name_marker then text_cell name
      else if col = StrLabel objective_1_header then objective
      else if col = StrLabel subjective_1_header then subjective
      else NaN)"

definition example_frame :: dataframe where
  "example_frame =
     \<lparr>columns = [StrLabel name_marker, StrLabel objective_1_header, StrLabel subjective_1_header],
      rows = [example_row alice (text_cell (ascii ''A'')) (Num 2 (ascii ''2'')),
              example_row bob (text_cell (ascii ''B'')) (Num 0 (ascii ''0'')),
              example_row carol (text_cell (ascii ''A'')) (text_cell (ascii ''-''))]\<rparr>"

definition empty_tally :: tally where
  "empty_tally = \<lparr>wrong_students = [], correct_count = 0, wrong_count = 0\<rparr>"


section \<open>Properties of the region store\<close>

lemma ascii_keys [simp]:
  "ascii ''x'' \<noteq> ascii ''question_number''"
  "ascii ''y'' \<noteq> ascii ''question_number''"
  "ascii ''width'' \<noteq> ascii ''question_number''"
  "ascii ''height'' \<noteq> ascii ''question_number''"
  "ascii ''y'' \<noteq> ascii ''x''"
  "ascii ''width'' \<noteq> ascii ''x''"
  "ascii ''height'' \<noteq> ascii ''x''"
  "ascii ''width'' \<noteq> ascii ''y''"
  "ascii ''height'' \<noteq> ascii ''y''"
  "ascii ''height'' \<noteq> ascii ''width''"
  by (simp_all add: ascii_def)

subsection \<open>A failed load\<close>









subsection \<open>Saving and loading again\<close>

lemma load_rect_region_record:
  "rect_ok r \<Longrightarrow> load_rect int_str (region_record (r, q)) = Inr r"
  by (simp add: load_rect_def region_record_def rect_ok_def QRect_def)

lemma qnum_region_record:
  "getitem (region_record (r, q)) (ascii ''question_number'') = Inr q"
  by (simp add: region_record_def)

lemma numbered_from_Nil: "numbered_from k []"
  by (simp add: numbered_from_def)

lemma numbered_from_Cons:
  "numbered_from k (p # rs) \<longleftrightarrow> rect_ok (fst p) \<and> snd p = PInt k \<and> numbered_from (k + 1) rs"
proof
  assume a: "numbered_from k (p # rs)"
  then have "rect_ok (fst ((p # rs) ! 0)) \<and> snd ((p # rs) ! 0) = PInt (k + int 0)"
    unfolding numbered_from_def by blast
  moreover have "numbered_from (k + 1) rs"
    unfolding numbered_from_def
  proof (intro allI impI)
    fix j assume "j < length rs"
    then have "Suc j < length (p # rs)" by simp
    with a have "rect_ok (fst ((p # rs) ! Suc j)) \<and> snd ((p # rs) ! Suc j) = PInt (k + int (Suc j))"
      unfolding numbered_from_def by blast
    then show "rect_ok (fst (rs ! j)) \<and> snd (rs ! j) = PInt (k + 1 + int j)"
      by (simp add: add.assoc add.commute)
  qed
  ultimately show "rect_ok (fst p) \<and> snd p = PInt k \<and> numbered_from (k + 1) rs" by simp
next
  assume a: "rect_ok (fst p) \<and> snd p = PInt k \<and> numbered_from (k + 1) rs"
  show "numbered_from k (p # rs)"
    unfolding numbered_from_def
  proof (intro allI impI)
    fix j assume j: "j < length (p # rs)"
    show "rect_ok (fst ((p # rs) ! j)) \<and> snd ((p # rs) ! j) = PInt (k + int j)"
    proof (cases j)
      case 0
      with a show ?thesis by simp
    next
      case (Suc i)
      with j have "i < length rs" by simp
      with a have "rect_ok (fst (rs ! i)) \<and> snd (rs ! i) = PInt (k + 1 + int i)"
        unfolding numbered_from_def by blast
      with Suc show ?thesis by (simp add: add.assoc add.commute)
    qed
  qed
qed

lemma numbered_from_snoc:
  "numbered_from k rs \<Longrightarrow> rect_ok r \<Longrightarrow> numbered_from k (rs @ [(r, PInt (k + int (length rs)))])"
  by (auto simp: numbered_from_def nth_append less_Suc_eq)

lemma numbered_from_butlast:
  "numbered_from k rs \<Longrightarrow> numbered_from k (butlast rs)"
  by (auto simp: numbered_from_def nth_butlast)

lemma int_length_butlast: "xs \<noteq> [] \<Longrightarrow> 1 + int (length xs - Suc 0) = int (length xs)"
  by (cases xs) auto

lemma reachable_numbered: "reachable w \<Longrightarrow> numbered w"
proof (induction rule: reachable.induct)
  case (reach_init s)
  show ?case by (simp add: numbered_def init_widget_def numbered_from_Nil)
next
  case (reach_append w rect b w')
  then show ?case
    by (auto simp: numbered_def mouseReleaseEvent_def numbered_from_snoc split: if_splits)
next
  case (reach_undo w w')
  then show ?case
    by (auto simp: numbered_def clear_last_def numbered_from_butlast int_length_butlast
        split: if_splits)
next
  case (reach_clear w)
  show ?case by (simp add: numbered_def clear_all_def numbered_from_Nil)
qed

lemma load_items_saved:
  "numbered_from k rs \<Longrightarrow>
   load_items int_str (map region_record rs) acc (PInt (k - 1)) =
     Inr (acc @ rs, PInt (k - 1 + int (length rs)))"
proof (induction rs arbitrary: acc k)
  case Nil
  then show ?case by simp
next
  case (Cons p rs)
  obtain r q where p: "p = (r, q)" by (cases p)
  from Cons.prems p have ok: "rect_ok r" and q: "q = PInt k"
    and rest: "numbered_from (k + 1) rs"
    by (simp_all add: numbered_from_Cons)
  have "load_items int_str (map region_record rs) (acc @ [(r, q)]) (PInt (k + 1 - 1)) =
      Inr ((acc @ [(r, q)]) @ rs, PInt (k + 1 - 1 + int (length rs)))"
    by (rule Cons.IH[OF rest])
  then show ?case using ok q p
    by (simp add: load_rect_region_record qnum_region_record py_max_def)
qed

text \<open>
  Claim C9. For a non-empty store \<open>s\<close> that drawing, undoing and clearing produced,
  loading what \<open>save_regions_config\<close> wrote (\<open>json.load\<close> reading back the list
  that \<open>json.dump\<close> was given) succeeds in any widget \<open>w\<close> and leaves
  it with the rectangle list of \<open>s\<close> (same rectangles, same question numbers, same
  order) and with the question counter of \<open>s\<close>, which is the largest stored question
  number plus one.
\<close>

theorem save_load_round_trip:
  assumes "reachable s" and "rectangles s \<noteq> []"
  shows "load_regions_config int_str w (Inr (save_regions_config s)) =
           (True, w\<lparr>rectangles := rectangles s,
                    current_question_number := current_question_number s\<rparr>) \<and>
         (\<exists>m. (\<exists>r. (r, PInt m) \<in> set (rectangles s)) \<and>
              (\<forall>r q. (r, q) \<in> set (rectangles s) \<longrightarrow> (\<exists>i. q = PInt i \<and> i \<le> m)) \<and>
              current_question_number s = PInt (m + 1))"
proof -
  from reachable_numbered[OF assms(1)] have n: "numbered s" .
  let ?n = "length (rectangles s)"
  from n have nf: "numbered_from 1 (rectangles s)"
    and cur: "current_question_number s = PInt (1 + int ?n)"
    by (simp_all add: numbered_def)
  have "load_items int_str (map region_record (rectangles s)) [] (PInt (1 - 1)) =
      Inr ([] @ rectangles s, PInt (1 - 1 + int ?n))"
    by (rule load_items_saved[OF nf])
  then have load: "load_regions_config int_str w (Inr (save_regions_config s)) =
           (True, w\<lparr>rectangles := rectangles s,
                    current_question_number := current_question_number s\<rparr>)"
    using cur by (simp add: load_regions_config_def save_regions_config_def)
  from assms(2) have pos: "0 < ?n" by simp
  have nth: "\<And>j. j < ?n \<Longrightarrow> snd (rectangles s ! j) = PInt (1 + int j)"
    using nf unfolding numbered_from_def by blast
  have last: "(fst (rectangles s ! (?n - 1)), PInt (int ?n)) \<in> set (rectangles s)"
  proof -
    have "rectangles s ! (?n - 1) \<in> set (rectangles s)" using pos by simp
    moreover have "snd (rectangles s ! (?n - 1)) = PInt (int ?n)"
      using nth[of "?n - 1"] pos by simp
    ultimately show ?thesis by (metis prod.collapse)
  qed
  have bound: "\<forall>r q. (r, q) \<in> set (rectangles s) \<longrightarrow> (\<exists>i. q = PInt i \<and> i \<le> int ?n)"
  proof (intro allI impI)
    fix r q assume "(r, q) \<in> set (rectangles s)"
    then obtain j where j: "j < ?n" "rectangles s ! j = (r, q)"
      by (auto simp: in_set_conv_nth)
    with nth[of j] have "q = PInt (1 + int j)" by simp
    with j show "\<exists>i. q = PInt i \<and> i \<le> int ?n" by auto
  qed
  from cur have cur': "current_question_number s = PInt (int ?n + 1)"
    by (simp add: add.commute)
  from load last bound cur' show ?thesis by blast
qed

theorem save_load_round_trip_witness:
  "\<forall>int_str.
     reachable one_region_widget \<and> rectangles one_region_widget \<noteq> [] \<and>
     load_regions_config int_str (init_widget 1)
         (Inr (save_regions_config one_region_widget)) =
       (True, one_region_widget)"
proof
  fix int_str :: "ustr \<Rightarrow> py_error + int"
  have "mouseReleaseEvent (init_widget 1)
          \<lparr>rect_x = 0, rect_y = 0, rect_width = 20, rect_height = 20\<rparr> =
        Inr (True, one_region_widget)"
    by (simp add: mouseReleaseEvent_def init_widget_def one_region_widget_def)
  moreover have "rect_ok \<lparr>rect_x = 0, rect_y = 0, rect_width = 20, rect_height = 20\<rparr>"
    by (simp add: rect_ok_def c_int_def)
  ultimately have r: "reachable one_region_widget"
    using reach_append[OF reach_init] by blast
  have ne: "rectangles one_region_widget \<noteq> []"
    by (simp add: one_region_widget_def)
  from save_load_round_trip[OF r ne, of int_str "init_widget 1"] r ne
  show "reachable one_region_widget \<and> rectangles one_region_widget \<noteq> [] \<and>
     load_regions_config int_str (init_widget 1)
         (Inr (save_regions_config one_region_widget)) =
       (True, one_region_widget)"
    by (simp add: init_widget_def one_region_widget_def)
qed

lemma reachable_min_size:
  "reachable w \<Longrightarrow> (r, q) \<in> set (rectangles w) \<Longrightarrow> rect_width r > 10 \<and> rect_height r > 10"
proof (induction arbitrary: r q rule: reachable.induct)
  case (reach_init s)
  then show ?case by (simp add: init_widget_def)
next
  case (reach_append w rect b w')
  then show ?case
    by (auto simp: mouseReleaseEvent_def split: if_splits sum.splits)
next
  case (reach_undo w w')
  from reach_undo.hyps(2) have "set (rectangles w') \<subseteq> set (rectangles w)"
    by (auto simp: clear_last_def split: if_splits sum.splits dest: in_set_butlastD)
  with reach_undo.prems have "(r, q) \<in> set (rectangles w)" by blast
  then show ?case by (rule reach_undo.IH)
next
  case (reach_clear w)
  then show ?case by (simp add: clear_all_def)
qed

text \<open>
  Claim C10. Every region of a store that drawing, undoing and clearing produced is
  wider and higher than 10 (\<open>reachable_min_size\<close>). Loading applies no size check. A well-formed file with a record of width 5
  and height 5 loads successfully into any widget, and the 5 by 5 region is then in
  \<open>self.rectangles\<close>, although \<open>mouseReleaseEvent\<close> refuses the same rectangle. So
  "width and height above 10" does not hold of every region of a loaded store.
\<close>

theorem load_bypasses_min_size:
  "\<exists>w'. load_regions_config int_str w (Inr (PList [region_json 1 0 0 5 5])) = (True, w') \<and>
     (\<lparr>rect_x = 0, rect_y = 0, rect_width = 5, rect_height = 5\<rparr>, PInt 1) \<in> set (rectangles w') \<and>
     mouseReleaseEvent w \<lparr>rect_x = 0, rect_y = 0, rect_width = 5, rect_height = 5\<rparr> =
       Inr (False, w)"
  by (simp add: load_regions_config_def load_rect_def QRect_def c_int_def py_max_def
      mouseReleaseEvent_def region_json_def)


section \<open>Properties of cropping\<close>

lemma round_half_even_nonneg: "0 \<le> r \<Longrightarrow> 0 \<le> round_half_even r"
  by (auto simp: round_half_even_def Let_def)

lemma to_double_sign:
  assumes "to_double q = Finite r"
  shows "(0 \<le> q \<longrightarrow> 0 \<le> r) \<and> (q \<le> 0 \<longrightarrow> r \<le> 0)"
proof (cases "q = 0")
  case True
  with assms show ?thesis by (simp add: to_double_def)
next
  case False
  define p where "p = max (float_exponent \<bar>q\<bar> - 52) (- 1074)"
  define m where "m = round_half_even (\<bar>q\<bar> / 2 powi p)"
  have pw: "(0::rat) < 2 powi p" by simp
  then have "0 \<le> \<bar>q\<bar> / 2 powi p" by simp
  then have "0 \<le> m" unfolding m_def by (rule round_half_even_nonneg)
  with pw have nn: "(0::rat) \<le> of_int m * 2 powi p" by simp
  from assms False have "r = (if 0 < q then of_int m * 2 powi p else - (of_int m * 2 powi p))"
    by (simp add: to_double_def Let_def p_def m_def split: if_splits)
  with nn False show ?thesis by auto
qed

lemma py_truediv_sign:
  assumes "py_truediv x s = Inr (Finite q)" and "0 < s"
  shows "(0 \<le> x \<longrightarrow> 0 \<le> q) \<and> (x < 0 \<longrightarrow> q \<le> 0)"
proof -
  from assms obtain fx where fx: "to_double (of_int x) = Finite fx"
    and q: "to_double (fx / s) = Finite q"
    by (auto simp: py_truediv_def split: pyfloat.splits if_splits)
  from to_double_sign[OF fx] have "(0 \<le> x \<longrightarrow> 0 \<le> fx) \<and> (x < 0 \<longrightarrow> fx \<le> 0)" by simp
  with assms(2) have "(0 \<le> x \<longrightarrow> 0 \<le> fx / s) \<and> (x < 0 \<longrightarrow> fx / s \<le> 0)"
    by (simp add: divide_nonpos_pos)
  with to_double_sign[OF q] show ?thesis by blast
qed

lemma int_of_float_cases:
  "int_of_float q = (if 0 \<le> q then \<lfloor>q\<rfloor> else \<lceil>q\<rceil>)"
  by (simp add: int_of_float_def ceiling_def)

lemma to_original_value:
  assumes "to_original s v = Inr n" and "0 < s"
  shows "\<exists>q. py_truediv v s = Inr (Finite q) \<and> n = (if 0 \<le> v then \<lfloor>q\<rfloor> else \<lceil>q\<rceil>)"
proof -
  from assms(1) obtain q where t: "py_truediv v s = Inr (Finite q)" and n: "n = int_of_float q"
    by (auto simp: to_original_def split: sum.splits elim: int_of_pyfloat.elims)
  from py_truediv_sign[OF t assms(2)] have s: "(0 \<le> v \<longrightarrow> 0 \<le> q) \<and> (v < 0 \<longrightarrow> q \<le> 0)" .
  have "int_of_float q = (if 0 \<le> v then \<lfloor>q\<rfloor> else \<lceil>q\<rceil>)"
  proof (cases "0 \<le> v")
    case True
    with s show ?thesis by (simp add: int_of_float_cases)
  next
    case False
    with s have "q \<le> 0" by simp
    then show ?thesis using False
      by (cases "q = 0") (simp_all add: int_of_float_cases)
  qed
  with t n show ?thesis by blast
qed

lemma crop_box_left_top:
  assumes "crop_box s rect = Inr b" and "0 < s"
  shows "\<exists>qx qy x2 y2.
     py_truediv (rect_x rect) s = Inr (Finite qx) \<and>
     py_truediv (rect_y rect) s = Inr (Finite qy) \<and>
     b = ((if 0 \<le> rect_x rect then \<lfloor>qx\<rfloor> else \<lceil>qx\<rceil>),
          (if 0 \<le> rect_y rect then \<lfloor>qy\<rfloor> else \<lceil>qy\<rceil>), x2, y2)"
proof -
  from assms(1) obtain x1 y1 x2 y2 where
    x1: "to_original s (rect_x rect) = Inr x1" and y1: "to_original s (rect_y rect) = Inr y1"
    and b: "b = (x1, y1, x2, y2)"
    by (auto simp: crop_box_def split: sum.splits)
  from to_original_value[OF x1 assms(2)] to_original_value[OF y1 assms(2)] b
  show ?thesis by blast
qed

lemma crop_all_croppable:
  "list_all (croppable crop s) (map fst rs) \<Longrightarrow>
   \<exists>regions. crop_all crop s rs = Inr regions \<and> length regions = length rs \<and>
     (\<forall>p \<in> set rs. \<exists>b cropped. crop_box s (fst p) = Inr b \<and> crop b = Inr cropped \<and>
        (snd p, cropped) \<in> set regions)"
proof (induction rs)
  case Nil
  show ?case by simp
next
  case (Cons p rs)
  from Cons.prems obtain b cropped where b: "crop_box s (fst p) = Inr b" "crop b = Inr cropped"
    by (auto simp: croppable_def split: sum.splits)
  from Cons.prems have "list_all (croppable crop s) (map fst rs)" by simp
  from Cons.IH[OF this] obtain regions where
    r: "crop_all crop s rs = Inr regions" "length regions = length rs"
      "\<forall>p \<in> set rs. \<exists>b cropped. crop_box s (fst p) = Inr b \<and> crop b = Inr cropped \<and>
         (snd p, cropped) \<in> set regions"
    by blast
  have "crop_all crop s (p # rs) = Inr ((snd p, cropped) # regions)" using b r(1) by simp
  moreover have "length ((snd p, cropped) # regions) = length (p # rs)" using r(2) by simp
  moreover have "\<forall>p' \<in> set (p # rs). \<exists>b' cropped'. crop_box s (fst p') = Inr b' \<and>
      crop b' = Inr cropped' \<and> (snd p', cropped') \<in> set ((snd p, cropped) # regions)"
  proof
    fix p' assume "p' \<in> set (p # rs)"
    then consider "p' = p" | "p' \<in> set rs" by auto
    then show "\<exists>b' cropped'. crop_box s (fst p') = Inr b' \<and> crop b' = Inr cropped' \<and>
        (snd p', cropped') \<in> set ((snd p, cropped) # regions)"
    proof cases
      case 1
      with b have "crop_box s (fst p') = Inr b \<and> crop b = Inr cropped \<and>
          (snd p', cropped) \<in> set ((snd p, cropped) # regions)"
        by simp
      then show ?thesis by blast
    next
      case 2
      with r(3) obtain b' cropped' where "crop_box s (fst p') = Inr b'" "crop b' = Inr cropped'"
        "(snd p', cropped') \<in> set regions"
        by blast
      then have "crop_box s (fst p') = Inr b' \<and> crop b' = Inr cropped' \<and>
          (snd p', cropped') \<in> set ((snd p, cropped) # regions)"
        by simp
      then show ?thesis by blast
    qed
  qed
  ultimately show ?case by blast
qed

text \<open>
  Claim C2, as amended. Take a store on which cropping runs through: the question
  numbers are numbers and, for every region, \<open>crop\<close> accepts the box. Then for every
  stored region and every scale factor \<open>s > 0\<close>, \<open>get_cropped_regions\<close> returns
  one image per stored region, and the image of the region is the crop of a box with
  \<open>left = int(x / s)\<close> and \<open>top = int(y / s)\<close>, where \<open>/\<close> is the float
  division and \<open>int\<close> rounds toward zero: the bound is the floor of the float quotient
  for a non-negative coordinate and its ceiling for a negative one. Nothing is said
  here about the right and lower bounds.
\<close>

theorem crop_bounds:
  assumes "(rect, qnum) \<in> set (rectangles w)" and "0 < scale_factor w"
    and "all_numbers (rectangles w)"
    and "list_all (croppable crop (scale_factor w)) (map fst (rectangles w))"
  shows "\<exists>regions qx qy x2 y2 cropped.
     get_cropped_regions crop w = Inr regions \<and> length regions = length (rectangles w) \<and>
     py_truediv (rect_x rect) (scale_factor w) = Inr (Finite qx) \<and>
     py_truediv (rect_y rect) (scale_factor w) = Inr (Finite qy) \<and>
     crop ((if 0 \<le> rect_x rect then \<lfloor>qx\<rfloor> else \<lceil>qx\<rceil>),
           (if 0 \<le> rect_y rect then \<lfloor>qy\<rfloor> else \<lceil>qy\<rceil>), x2, y2) = Inr cropped \<and>
     (qnum, cropped) \<in> set regions"
proof -
  let ?s = "scale_factor w"
  let ?sorted = "sort_key (\<lambda>p. the (num_value (snd p))) (rectangles w)"
  from assms(3) have so: "sorted_by_qnum (rectangles w) = Inr ?sorted"
    by (simp add: sorted_by_qnum_def all_numbers_def)
  from assms(4) have "list_all (croppable crop ?s) (map fst ?sorted)"
    by (simp add: list_all_iff)
  from crop_all_croppable[OF this] obtain regions where
    r: "crop_all crop ?s ?sorted = Inr regions" "length regions = length ?sorted"
      "\<forall>p \<in> set ?sorted. \<exists>b cropped. crop_box ?s (fst p) = Inr b \<and> crop b = Inr cropped \<and>
         (snd p, cropped) \<in> set regions"
    by blast
  from so r(1) have g: "get_cropped_regions crop w = Inr regions"
    by (simp add: get_cropped_regions_def)
  from r(2) have l: "length regions = length (rectangles w)" by simp
  from assms(1) have "(rect, qnum) \<in> set ?sorted" by simp
  with r(3) obtain b cropped where
    b: "crop_box ?s rect = Inr b" "crop b = Inr cropped" "(qnum, cropped) \<in> set regions"
    by fastforce
  from crop_box_left_top[OF b(1) assms(2)] obtain qx qy x2 y2 where
    q: "py_truediv (rect_x rect) ?s = Inr (Finite qx)"
      "py_truediv (rect_y rect) ?s = Inr (Finite qy)"
      "b = ((if 0 \<le> rect_x rect then \<lfloor>qx\<rfloor> else \<lceil>qx\<rceil>),
            (if 0 \<le> rect_y rect then \<lfloor>qy\<rfloor> else \<lceil>qy\<rceil>), x2, y2)"
    by blast
  from b(2) q(3) have "crop ((if 0 \<le> rect_x rect then \<lfloor>qx\<rfloor> else \<lceil>qx\<rceil>),
           (if 0 \<le> rect_y rect then \<lfloor>qy\<rfloor> else \<lceil>qy\<rceil>), x2, y2) = Inr cropped"
    by simp
  with g l q(1) q(2) b(3) show ?thesis by blast
qed

text \<open>Evaluating the float arithmetic at the examples.\<close>

lemma bit_length_simps:
  "bit_length 0 = 0" "bit_length 1 = 1" "bit_length (Suc 0) = 1"
  "bit_length (numeral n) = Suc (bit_length (numeral n div 2))"
  by (simp_all add: bit_length.simps[of 0] bit_length.simps[of 1] bit_length.simps[of "Suc 0"]
      bit_length.simps[of "numeral n"])

lemma floor_numeral_quotient:
  "\<lfloor>numeral a / numeral b :: rat\<rfloor> = numeral a div numeral b"
  using floor_divide_of_int_eq[of "numeral a" "numeral b", where ?'a = rat] by simp

lemma ceiling_numeral_quotient:
  "\<lceil>numeral a / numeral b :: rat\<rceil> = - ((- numeral a) div numeral b)"
  using floor_divide_of_int_eq[of "- numeral a" "numeral b", where ?'a = rat]
  by (simp add: ceiling_def)

lemmas double_eval = to_double_def float_exponent_def bit_length_simps round_half_even_def
  Let_def floor_numeral_quotient ceiling_numeral_quotient power_int_minus

lemmas coordinate_eval = to_original_def py_truediv_def int_of_float_def double_eval

lemma half_scale_coordinates:
  "to_original (1 / 2) 100 = Inr 200" "to_original (1 / 2) 149 = Inr 298"
  by (simp_all add: coordinate_eval)

lemma three_quarter_coordinates:
  "to_original (3 / 4) (- 1) = Inr (- 1)" "to_original (3 / 4) 48 = Inr 64"
  by (simp_all add: coordinate_eval)

lemma rounded_scale_coordinates:
  "to_original (278573172827041 / 281474976710656) 96 = Inr 97"
  "to_original (278573172827041 / 281474976710656) 0 = Inr 0"
  "to_original (278573172827041 / 281474976710656) 145 = Inr 146"
  "to_original (278573172827041 / 281474976710656) 49 = Inr 49"
  by (simp_all add: coordinate_eval)

lemma scale_is_rounded_quotient:
  "to_double (192 / 194) = Finite (278573172827041 / 281474976710656)"
  by (simp add: double_eval)

lemma example_boxes:
  "crop_box (1 / 2) \<lparr>rect_x = 100, rect_y = 100, rect_width = 50, rect_height = 50\<rparr> =
     Inr (200, 200, 298, 298)"
  "crop_box (3 / 4) \<lparr>rect_x = - 1, rect_y = - 1, rect_width = 50, rect_height = 50\<rparr> =
     Inr (- 1, - 1, 64, 64)"
  "crop_box (278573172827041 / 281474976710656)
     \<lparr>rect_x = 96, rect_y = 0, rect_width = 50, rect_height = 50\<rparr> = Inr (97, 0, 146, 49)"
  by (simp_all add: crop_box_def rect_right_def rect_bottom_def c_int_wrap_def
      half_scale_coordinates three_quarter_coordinates rounded_scale_coordinates)

text \<open>
  At the example of the specification, scale factor \<open>1/2\<close> and the rectangle
  \<open>(100, 100, 50, 50)\<close>, the left and upper bounds are 200 and 200.
\<close>

theorem crop_bounds_witness:
  "(\<lparr>rect_x = 100, rect_y = 100, rect_width = 50, rect_height = 50\<rparr>, PInt 1)
     \<in> set (rectangles half_scale_widget) \<and>
   0 < scale_factor half_scale_widget \<and> all_numbers (rectangles half_scale_widget) \<and>
   list_all (croppable box_crop (scale_factor half_scale_widget))
     (map fst (rectangles half_scale_widget)) \<and>
   (\<exists>regions x2 y2 cropped. get_cropped_regions box_crop half_scale_widget = Inr regions \<and>
      length regions = 1 \<and> box_crop (200, 200, x2, y2) = Inr cropped \<and>
      (PInt 1, cropped) \<in> set regions)"
proof -
  let ?rect = "\<lparr>rect_x = 100, rect_y = 100, rect_width = 50, rect_height = 50\<rparr>"
  have h1: "(?rect, PInt 1) \<in> set (rectangles half_scale_widget)"
    by (simp add: half_scale_widget_def)
  have h2: "0 < scale_factor half_scale_widget" by (simp add: half_scale_widget_def)
  have h3: "all_numbers (rectangles half_scale_widget)"
    by (simp add: half_scale_widget_def all_numbers_def)
  have h4: "list_all (croppable box_crop (scale_factor half_scale_widget))
      (map fst (rectangles half_scale_widget))"
    by (simp add: half_scale_widget_def croppable_def example_boxes box_crop_def)
  have q: "py_truediv 100 (1 / 2) = Inr (Finite 200)"
    by (simp add: py_truediv_def double_eval)
  from crop_bounds[OF h1 h2 h3 h4] obtain regions qx qy x2 y2 cropped where
    r: "get_cropped_regions box_crop half_scale_widget = Inr regions"
      "length regions = length (rectangles half_scale_widget)"
      "py_truediv (rect_x ?rect) (scale_factor half_scale_widget) = Inr (Finite qx)"
      "py_truediv (rect_y ?rect) (scale_factor half_scale_widget) = Inr (Finite qy)"
      "box_crop ((if 0 \<le> rect_x ?rect then \<lfloor>qx\<rfloor> else \<lceil>qx\<rceil>),
            (if 0 \<le> rect_y ?rect then \<lfloor>qy\<rfloor> else \<lceil>qy\<rceil>), x2, y2) = Inr cropped"
      "(PInt 1, cropped) \<in> set regions"
    by blast
  from r(3) r(4) q have "qx = 200" "qy = 200" by (simp_all add: half_scale_widget_def)
  with r(5) have "box_crop (200, 200, x2, y2) = Inr cropped" by simp
  moreover from r(2) have "length regions = 1" by (simp add: half_scale_widget_def)
  ultimately show ?thesis using h1 h2 h3 h4 r(1) r(6) by blast
qed

text \<open>
  The claim as stated fails in three ways. The right and lower bounds come from
  \<open>rect.right()\<close> and \<open>rect.bottom()\<close>, which are \<open>x + width - 1\<close> and
  \<open>y + height - 1\<close>: at the example of the specification the box handed to
  \<open>crop\<close> ends at 298, not 300. \<open>int\<close> is not the floor for a negative coordinate:
  with scale factor \<open>3/4\<close> a left edge at \<open>-1\<close> maps to \<open>-1\<close>, while the floor
  of \<open>-4/3\<close> is \<open>-2\<close>. And the quotient is a float: with the scale factor that
  the division \<open>192 / 194\<close> of two image widths gives, a left edge at 96 maps to 97,
  while the floor of the exact quotient is 96.
\<close>

theorem crop_example_bounds:
  "crop_box (1 / 2) \<lparr>rect_x = 100, rect_y = 100, rect_width = 50, rect_height = 50\<rparr> =
     Inr (200, 200, 298, 298) \<and>
   get_cropped_regions box_crop half_scale_widget = Inr [(PInt 1, (200, 200, 298, 298))] \<and>
   get_cropped_regions box_crop negative_corner_widget = Inr [(PInt 1, (- 1, - 1, 64, 64))] \<and>
   \<lfloor>of_int (- 1) / (3 / 4 :: rat)\<rfloor> = - 2 \<and>
   get_cropped_regions box_crop rounded_scale_widget = Inr [(PInt 1, (97, 0, 146, 49))] \<and>
   \<lfloor>of_int 96 / (278573172827041 / 281474976710656 :: rat)\<rfloor> = 96"
proof -
  have a: "get_cropped_regions box_crop half_scale_widget = Inr [(PInt 1, (200, 200, 298, 298))]"
    by (simp add: get_cropped_regions_def half_scale_widget_def sorted_by_qnum_def example_boxes
        box_crop_def)
  have b: "get_cropped_regions box_crop negative_corner_widget =
      Inr [(PInt 1, (- 1, - 1, 64, 64))]"
    by (simp add: get_cropped_regions_def negative_corner_widget_def sorted_by_qnum_def
        example_boxes box_crop_def)
  have c: "\<lfloor>of_int (- 1) / (3 / 4 :: rat)\<rfloor> = - 2"
    by (simp add: floor_eq_iff)
  have d: "get_cropped_regions box_crop rounded_scale_widget =
      Inr [(PInt 1, (97, 0, 146, 49))]"
    by (simp add: get_cropped_regions_def rounded_scale_widget_def sorted_by_qnum_def
        example_boxes box_crop_def)
  have e: "\<lfloor>of_int 96 / (278573172827041 / 281474976710656 :: rat)\<rfloor> = 96"
    by (simp add: floor_eq_iff)
  from example_boxes(1) a b c d e show ?thesis by blast
qed


section \<open>Properties of \<open>load_excel\<close>\<close>

lemma scan_rows_upt_Some:
  "scan_rows g [m ..< n] = Some k \<longleftrightarrow>
     m \<le> k \<and> k < n \<and> has_name_marker (g ! k) \<and> (\<forall>j. m \<le> j \<and> j < k \<longrightarrow> \<not> has_name_marker (g ! j))"
proof (induction "n - m" arbitrary: m)
  case 0
  then show ?case by auto
next
  case (Suc d)
  then have lt: "m < n" and d: "d = n - Suc m" by auto
  have upt: "[m ..< n] = m # [Suc m ..< n]" using lt by (simp add: upt_conv_Cons)
  show ?case
  proof (cases "has_name_marker (g ! m)")
    case True
    then show ?thesis using lt upt
      by (auto simp: not_less)
  next
    case False
    have "scan_rows g [m ..< n] = scan_rows g [Suc m ..< n]"
      using False upt by simp
    also have "\<dots> = Some k \<longleftrightarrow>
       Suc m \<le> k \<and> k < n \<and> has_name_marker (g ! k) \<and>
       (\<forall>j. Suc m \<le> j \<and> j < k \<longrightarrow> \<not> has_name_marker (g ! j))"
      by (rule Suc.hyps(1)[OF d])
    also have "\<dots> \<longleftrightarrow> m \<le> k \<and> k < n \<and> has_name_marker (g ! k) \<and>
       (\<forall>j. m \<le> j \<and> j < k \<longrightarrow> \<not> has_name_marker (g ! j))"
      (is "?L \<longleftrightarrow> ?R")
    proof
      assume L: ?L
      have "\<not> has_name_marker (g ! j)" if j: "m \<le> j \<and> j < k" for j
      proof (cases "j = m")
        case True
        with False show ?thesis by simp
      next
        case neq: False
        with j have "Suc m \<le> j \<and> j < k" by simp
        with L show ?thesis by blast
      qed
      with L show ?R by simp
    next
      assume R: ?R
      with False have "k \<noteq> m" by blast
      with R have "Suc m \<le> k" by simp
      moreover have "\<not> has_name_marker (g ! j)" if "Suc m \<le> j \<and> j < k" for j
        using R that by simp
      ultimately show ?L using R by simp
    qed
    finally show ?thesis .
  qed
qed

lemma scan_rows_upt_None:
  "scan_rows g [m ..< n] = None \<longleftrightarrow> (\<forall>j. m \<le> j \<and> j < n \<longrightarrow> \<not> has_name_marker (g ! j))"
proof -
  have "scan_rows g [m ..< n] = None \<longleftrightarrow> (\<forall>k. scan_rows g [m ..< n] \<noteq> Some k)"
    by auto
  also have "\<dots> \<longleftrightarrow> (\<forall>j. m \<le> j \<and> j < n \<longrightarrow> \<not> has_name_marker (g ! j))"
  proof
    assume a: "\<forall>k. scan_rows g [m ..< n] \<noteq> Some k"
    show "\<forall>j. m \<le> j \<and> j < n \<longrightarrow> \<not> has_name_marker (g ! j)"
    proof (intro allI impI)
      fix j assume j: "m \<le> j \<and> j < n"
      show "\<not> has_name_marker (g ! j)"
      proof
        assume h: "has_name_marker (g ! j)"
        define k where "k = (LEAST i. m \<le> i \<and> has_name_marker (g ! i))"
        have p: "m \<le> k \<and> has_name_marker (g ! k)"
          unfolding k_def by (rule LeastI[of "\<lambda>i. m \<le> i \<and> has_name_marker (g ! i)" j]) (use j h in simp)
        have le: "k \<le> j"
          unfolding k_def by (rule Least_le) (use j h in simp)
        have least: "\<forall>i. m \<le> i \<and> i < k \<longrightarrow> \<not> has_name_marker (g ! i)"
          unfolding k_def using not_less_Least by blast
        from p le j least have "scan_rows g [m ..< n] = Some k"
          by (simp add: scan_rows_upt_Some)
        with a show False by simp
      qed
    qed
  next
    assume "\<forall>j. m \<le> j \<and> j < n \<longrightarrow> \<not> has_name_marker (g ! j)"
    then show "\<forall>k. scan_rows g [m ..< n] \<noteq> Some k"
      by (auto simp: scan_rows_upt_Some)
  qed
  finally show ?thesis .
qed

text \<open>
  Claim C5. The header row that the loader selects is \<open>k\<close> exactly when \<open>k\<close> is
  below \<open>min(5, row count)\<close>, some cell of row \<open>k\<close> contains the name marker as
  text, and no earlier row does; the sheet is then read again with row \<open>k\<close> as its
  header. No row is selected exactly when none of the first five rows contains the
  marker, and the sheet is then read with its first row as the header.
\<close>

theorem header_detection:
  "(find_header_row g = Some k \<longleftrightarrow>
      k < min 5 (length g) \<and> has_name_marker (g ! k) \<and> (\<forall>j < k. \<not> has_name_marker (g ! j))) \<and>
   (find_header_row g = None \<longleftrightarrow> (\<forall>j < min 5 (length g). \<not> has_name_marker (g ! j))) \<and>
   (find_header_row g = Some k \<longrightarrow>
      load_excel g = dropna_all (drop_score_label_row (read_excel g k)) \<and>
      header_cells (load_excel g) = g ! k) \<and>
   (find_header_row g = None \<longrightarrow> load_excel g = dropna_all (read_excel g 0))"
proof -
  have a: "find_header_row g = Some k \<longleftrightarrow>
      k < min 5 (length g) \<and> has_name_marker (g ! k) \<and> (\<forall>j < k. \<not> has_name_marker (g ! j))"
    unfolding find_header_row_def scan_rows_upt_Some by simp
  have b: "find_header_row g = None \<longleftrightarrow> (\<forall>j < min 5 (length g). \<not> has_name_marker (g ! j))"
    unfolding find_header_row_def scan_rows_upt_None by simp
  have c: "find_header_row g = Some k \<longrightarrow>
      load_excel g = dropna_all (drop_score_label_row (read_excel g k))"
    by (simp add: load_excel_def)
  have hdr: "header_cells (dropna_all (drop_score_label_row t)) = header_cells t" for t
    by (simp add: dropna_all_def drop_score_label_row_def split: list.splits)
  have d: "find_header_row g = Some k \<longrightarrow> header_cells (load_excel g) = g ! k"
  proof
    assume f: "find_header_row g = Some k"
    with a have "k < length g" by simp
    with f show "header_cells (load_excel g) = g ! k"
      by (simp add: load_excel_def hdr read_excel_def)
  qed
  have e: "find_header_row g = None \<longrightarrow> load_excel g = dropna_all (read_excel g 0)"
    by (simp add: load_excel_def)
  from a b c d e show ?thesis by blast
qed

lemmas marker_defs = name_marker_def student_marker_def full_score_marker_def
  question_marker_def score_label_def subjective_char_def objective_char_def
  subjective_1_header_def objective_1_header_def student_no_header_def
  student_answers_header_def

lemma has_name_marker_titled:
  "\<not> has_name_marker (titled_grid ! 0)" "has_name_marker (titled_grid ! 1)"
  by (simp_all add: titled_grid_def has_name_marker_def text_cell_def marker_defs ascii_def)

theorem header_detection_witness:
  "find_header_row titled_grid = Some 1 \<and>
   load_excel titled_grid =
     \<lparr>header_cells = [text_cell name_marker, text_cell subjective_1_header],
      data_rows = [[text_cell alice, Num 2 (ascii ''2'')], [text_cell bob, Num 0 (ascii ''0'')]]\<rparr>"
proof -
  have "(1::nat) < min 5 (length titled_grid)" by (simp add: titled_grid_def)
  moreover have "\<forall>j<(1::nat). \<not> has_name_marker (titled_grid ! j)"
    using has_name_marker_titled(1) by simp
  ultimately have f: "find_header_row titled_grid = Some 1"
    using header_detection[of titled_grid 1] has_name_marker_titled(2) by blast
  with header_detection[of titled_grid 1]
  have "load_excel titled_grid = dropna_all (drop_score_label_row (read_excel titled_grid 1))"
    by blast
  also have "\<dots> = \<lparr>header_cells = [text_cell name_marker, text_cell subjective_1_header],
      data_rows = [[text_cell alice, Num 2 (ascii ''2'')], [text_cell bob, Num 0 (ascii ''0'')]]\<rparr>"
    by (simp add: titled_grid_def read_excel_def drop_score_label_row_def dropna_all_def
        is_score_label_row_def text_cell_def score_label_def ascii_def)
  finally show ?thesis using f by simp
qed

lemma length_filter_not:
  "length (filter (\<lambda>x. \<not> P x) xs) = length xs - length (filter P xs)"
  using sum_length_filter_compl[of P xs] by simp

text \<open>
  Claim C4, as amended. When a header row is found by the name marker and the joined
  text of the first row below it contains the score label, that row is removed: the
  data rows of the table are the rows below it, in order, without the rows whose cells
  are all missing, so their number is the raw number of rows below the header, minus
  one, minus the number of all-missing rows among the others. When no header row is
  found, no score-label row is removed: the data rows are all rows below the first,
  without the all-missing ones.
\<close>

theorem score_label_row_removed:
  "(find_header_row g = Some h \<and> drop (Suc h) g = first # others \<and> is_score_label_row first \<longrightarrow>
      data_rows (load_excel g) = filter (\<lambda>row. \<not> list_all pd_isna row) others \<and>
      length (data_rows (load_excel g)) =
        length (drop (Suc h) g) - 1 - length (filter (list_all pd_isna) others)) \<and>
   (find_header_row g = None \<longrightarrow>
      data_rows (load_excel g) = filter (\<lambda>row. \<not> list_all pd_isna row) (drop 1 g))"
  by (simp add: load_excel_def read_excel_def drop_score_label_row_def dropna_all_def
      length_filter_not)

theorem score_label_row_removed_witness:
  "find_header_row titled_grid = Some 1 \<and>
   drop 2 titled_grid =
     [NaN, text_cell score_label] #
     [[NaN, NaN], [text_cell alice, Num 2 (ascii ''2'')], [text_cell bob, Num 0 (ascii ''0'')]] \<and>
   is_score_label_row [NaN, text_cell score_label] \<and>
   data_rows (load_excel titled_grid) =
     [[text_cell alice, Num 2 (ascii ''2'')], [text_cell bob, Num 0 (ascii ''0'')]] \<and>
   length (data_rows (load_excel titled_grid)) = 4 - 1 - 1"
proof -
  have f: "find_header_row titled_grid = Some 1"
    by (simp add: find_header_row_def titled_grid_def has_name_marker_def text_cell_def
        marker_defs ascii_def upt_conv_Cons)
  have d: "drop (Suc 1) titled_grid =
     [NaN, text_cell score_label] #
     [[NaN, NaN], [text_cell alice, Num 2 (ascii ''2'')], [text_cell bob, Num 0 (ascii ''0'')]]"
    by (simp add: titled_grid_def)
  have s: "is_score_label_row [NaN, text_cell score_label]"
    by (simp add: is_score_label_row_def text_cell_def score_label_def ascii_def)
  from score_label_row_removed[of titled_grid 1 "[NaN, text_cell score_label]"
      "[[NaN, NaN], [text_cell alice, Num 2 (ascii ''2'')], [text_cell bob, Num 0 (ascii ''0'')]]"]
    f d s
  have "data_rows (load_excel titled_grid) =
      filter (\<lambda>row. \<not> list_all pd_isna row)
        [[NaN, NaN], [text_cell alice, Num 2 (ascii ''2'')], [text_cell bob, Num 0 (ascii ''0'')]]"
    by blast
  then have r: "data_rows (load_excel titled_grid) =
     [[text_cell alice, Num 2 (ascii ''2'')], [text_cell bob, Num 0 (ascii ''0'')]]"
    by (simp add: text_cell_def)
  have d': "drop 2 titled_grid =
     [NaN, text_cell score_label] #
     [[NaN, NaN], [text_cell alice, Num 2 (ascii ''2'')], [text_cell bob, Num 0 (ascii ''0'')]]"
    by (simp add: titled_grid_def)
  have l: "length (data_rows (load_excel titled_grid)) = 4 - 1 - 1"
    using r by simp
  from f d' s r l show ?thesis by blast
qed

text \<open>
  The claim as stated fails twice. In a sheet where no row has the name marker, the
  first data row still holds the score label after loading. And in the titled sheet,
  four rows lie below the header and two are left, not three: the empty row is dropped
  as well.
\<close>

theorem score_label_row_kept:
  "data_rows (load_excel unmarked_grid) =
     [[text_cell score_label, text_cell score_label], [Num 1 (ascii ''1''), Num 2 (ascii ''2'')]] \<and>
   is_score_label_row [text_cell score_label, text_cell score_label] \<and>
   length (drop 2 titled_grid) = 4 \<and>
   length (data_rows (load_excel titled_grid)) = 2"
proof -
  have f: "find_header_row unmarked_grid = None"
    by (simp add: find_header_row_def unmarked_grid_def has_name_marker_def text_cell_def
        marker_defs ascii_def upt_conv_Cons)
  have a: "data_rows (load_excel unmarked_grid) =
     [[text_cell score_label, text_cell score_label], [Num 1 (ascii ''1''), Num 2 (ascii ''2'')]]"
    unfolding load_excel_def f
    by (simp add: read_excel_def dropna_all_def unmarked_grid_def text_cell_def)
  have s: "is_score_label_row [text_cell score_label, text_cell score_label]"
    by (simp add: is_score_label_row_def text_cell_def score_label_def)
  have g: "find_header_row titled_grid = Some 1"
    by (simp add: find_header_row_def titled_grid_def has_name_marker_def text_cell_def
        marker_defs ascii_def upt_conv_Cons)
  have b: "length (data_rows (load_excel titled_grid)) = 2"
    unfolding load_excel_def g
    by (simp add: titled_grid_def read_excel_def drop_score_label_row_def
        dropna_all_def is_score_label_row_def text_cell_def score_label_def ascii_def)
  have c: "length (drop 2 titled_grid) = 4" by (simp add: titled_grid_def)
  from a s b c show ?thesis by simp
qed


section \<open>Properties of the classification\<close>

lemma classify_column_step:
  "classify_column nc col c =
     \<lparr>all_question_columns = all_question_columns c @ filter (is_question_column nc) [col],
      subjective_columns = subjective_columns c @ filter (goes_subjective nc) [col],
      objective_columns = objective_columns c @ filter (goes_objective nc) [col]\<rparr>"
  by (simp add: classify_column_def goes_subjective_def goes_objective_def Let_def)

lemma classify_fold:
  "fold (classify_column nc) cols c =
     \<lparr>all_question_columns = all_question_columns c @ filter (is_question_column nc) cols,
      subjective_columns = subjective_columns c @ filter (goes_subjective nc) cols,
      objective_columns = objective_columns c @ filter (goes_objective nc) cols\<rparr>"
proof (induction cols arbitrary: c)
  case Nil
  show ?case by simp
next
  case (Cons col cols)
  have "fold (classify_column nc) (col # cols) c =
      fold (classify_column nc) cols (classify_column nc col c)"
    by simp
  also have "\<dots> =
     \<lparr>all_question_columns =
        all_question_columns (classify_column nc col c) @ filter (is_question_column nc) cols,
      subjective_columns =
        subjective_columns (classify_column nc col c) @ filter (goes_subjective nc) cols,
      objective_columns =
        objective_columns (classify_column nc col c) @ filter (goes_objective nc) cols\<rparr>"
    by (rule Cons.IH)
  also have "\<dots> =
     \<lparr>all_question_columns =
        all_question_columns c @ filter (is_question_column nc) (col # cols),
      subjective_columns = subjective_columns c @ filter (goes_subjective nc) (col # cols),
      objective_columns = objective_columns c @ filter (goes_objective nc) (col # cols)\<rparr>"
    by (simp add: classify_column_step)
  finally show ?case .
qed

lemma classify_columns_filter:
  "classify_columns nc cols =
     \<lparr>all_question_columns = filter (is_question_column nc) cols,
      subjective_columns = filter (goes_subjective nc) cols,
      objective_columns = filter (goes_objective nc) cols\<rparr>"
  by (simp add: classify_columns_def classify_fold)

lemma score_lists_partition:
  "set (subjective_columns (classify_columns nc cols)) \<inter>
     set (objective_columns (classify_columns nc cols)) = {} \<and>
   set (all_question_columns (classify_columns nc cols)) =
     set (subjective_columns (classify_columns nc cols)) \<union>
     set (objective_columns (classify_columns nc cols))"
  by (auto simp: classify_columns_filter goes_subjective_def goes_objective_def)

text \<open>
  Claim C3: the column chosen as the identity column is never also a score column. The
  code does not keep to it. The pure-digit rule of the classification loop leaves the
  name column out (\<open>col_str != name_column\<close>), but the two marker rules do not: with
  the headers "xue sheng da ti" and "zhu-1 (man fen:2)", the first column is found as
  the name column by its student marker, and the loop then classifies it as a
  subjective column as well, because its header contains the question marker.
\<close>

theorem name_column_scored:
  "find_name_column [StrLabel student_answers_header, StrLabel subjective_1_header] =
     Inr (StrLabel student_answers_header) \<and>
   subjective_columns
     (classify_columns (StrLabel student_answers_header)
        [StrLabel student_answers_header, StrLabel subjective_1_header]) =
     [StrLabel student_answers_header, StrLabel subjective_1_header]"
  by (simp add: find_name_column_def is_name_header_def student_answers_header_def
      student_marker_def name_marker_def question_marker_def classify_columns_def
      classify_column_def is_question_column_def is_subjective_header_def
      is_objective_header_def subjective_1_header_def full_score_marker_def
      subjective_char_def objective_char_def)


section \<open>Properties of the scoring\<close>

lemma analyze_columns_lookup:
  "analyze_columns nc df k cols stats i =
     (if k \<le> i \<and> i < k + length cols then Some (column_stats nc df (cols ! (i - k)))
      else stats i)"
proof (induction cols arbitrary: k stats)
  case Nil
  show ?case by auto
next
  case (Cons col cols)
  show ?case
    by (auto simp: Cons.IH nth_Cons' Suc_diff_le)
qed

text \<open>
  Claim C7. The columns that are scored are the subjective columns if there are any,
  and else all question columns. The result maps the numbers \<open>1, \<dots>, n\<close> to the
  statistics of these columns, in the order of that list: question \<open>i + 1\<close> is the
  column at position \<open>i\<close> of the chosen list, wherever it stands in the table.
\<close>

theorem question_numbering:
  assumes "find_name_column (columns df) = Inr nc"
  shows "\<exists>stats. analyze_questions df = Inr stats \<and>
     dom stats = {1 .. length (choose_score_columns (classify_columns nc (columns df)))} \<and>
     (\<forall>i < length (choose_score_columns (classify_columns nc (columns df))).
        stats (Suc i) =
          Some (column_stats nc df (choose_score_columns (classify_columns nc (columns df)) ! i))) \<and>
     choose_score_columns (classify_columns nc (columns df)) =
       (if subjective_columns (classify_columns nc (columns df)) \<noteq> []
        then subjective_columns (classify_columns nc (columns df))
        else all_question_columns (classify_columns nc (columns df)))"
proof -
  let ?sc = "choose_score_columns (classify_columns nc (columns df))"
  let ?stats = "analyze_columns nc df 1 ?sc Map.empty"
  have a: "analyze_questions df = Inr ?stats"
    using assms by (simp add: analyze_questions_def)
  have d: "dom ?stats = {1 .. length ?sc}"
    by (auto simp: dom_def analyze_columns_lookup)
  have l: "\<forall>i < length ?sc. ?stats (Suc i) = Some (column_stats nc df (?sc ! i))"
    by (simp add: analyze_columns_lookup)
  have c: "?sc = (if subjective_columns (classify_columns nc (columns df)) \<noteq> []
        then subjective_columns (classify_columns nc (columns df))
        else all_question_columns (classify_columns nc (columns df)))"
    by (simp add: choose_score_columns_def)
  from a d l c show ?thesis by blast
qed

lemma score_row_skipped:
  "row_skipped nc row \<or> unanswered (row col) \<Longrightarrow> score_row nc col row t = t"
  by (auto simp: score_row_def row_skipped_def unanswered_def Let_def)

lemma score_row_not_number:
  "py_float (row col) = Inl e \<Longrightarrow> score_row nc col row t = t"
  by (simp add: score_row_def Let_def)

lemma score_row_number:
  "\<not> row_skipped nc row \<Longrightarrow> \<not> unanswered (row col) \<Longrightarrow> py_float (row col) = Inr v \<Longrightarrow>
   score_row nc col row t =
     (if v = Finite 0
      then t\<lparr>wrong_students := wrong_students t @ [strip (py_str (row nc))],
             wrong_count := wrong_count t + 1\<rparr>
      else t\<lparr>correct_count := correct_count t + 1\<rparr>)"
  by (simp add: score_row_def row_skipped_def unanswered_def Let_def)

lemma score_row_tally:
  "score_row nc col row t =
     \<lparr>wrong_students = wrong_students t @
        map (\<lambda>r. strip (py_str (r nc))) (filter (zero_scored nc col) [row]),
      correct_count = correct_count t + length (filter (nonzero_scored nc col) [row]),
      wrong_count = wrong_count t + length (filter (zero_scored nc col) [row])\<rparr>"
proof (cases "row_skipped nc row \<or> unanswered (row col)")
  case True
  then show ?thesis
    by (auto simp: score_row_skipped zero_scored_def nonzero_scored_def)
next
  case False
  show ?thesis
  proof (cases "py_float (row col)")
    case (Inl e)
    then show ?thesis
      by (simp add: score_row_not_number zero_scored_def nonzero_scored_def)
  next
    case (Inr v)
    with False show ?thesis
      by (simp add: score_row_number zero_scored_def nonzero_scored_def)
  qed
qed

lemma fold_score_row:
  "fold (score_row nc col) rs t =
     \<lparr>wrong_students = wrong_students t @
        map (\<lambda>r. strip (py_str (r nc))) (filter (zero_scored nc col) rs),
      correct_count = correct_count t + length (filter (nonzero_scored nc col) rs),
      wrong_count = wrong_count t + length (filter (zero_scored nc col) rs)\<rparr>"
proof (induction rs arbitrary: t)
  case Nil
  show ?case by simp
next
  case (Cons row rs)
  have "fold (score_row nc col) (row # rs) t = fold (score_row nc col) rs (score_row nc col row t)"
    by simp
  also have "\<dots> =
     \<lparr>wrong_students = wrong_students (score_row nc col row t) @
        map (\<lambda>r. strip (py_str (r nc))) (filter (zero_scored nc col) rs),
      correct_count = correct_count (score_row nc col row t) +
        length (filter (nonzero_scored nc col) rs),
      wrong_count = wrong_count (score_row nc col row t) +
        length (filter (zero_scored nc col) rs)\<rparr>"
    by (rule Cons.IH)
  also have "\<dots> =
     \<lparr>wrong_students = wrong_students t @
        map (\<lambda>r. strip (py_str (r nc))) (filter (zero_scored nc col) (row # rs)),
      correct_count = correct_count t + length (filter (nonzero_scored nc col) (row # rs)),
      wrong_count = wrong_count t + length (filter (zero_scored nc col) (row # rs))\<rparr>"
    by (subst (1 2 3) score_row_tally) simp
  finally show ?case .
qed

lemma column_stats_tally:
  "wrong_students (column_stats nc df col) =
     map (\<lambda>r. strip (py_str (r nc))) (filter (zero_scored nc col) (rows df)) \<and>
   wrong_count (column_stats nc df col) = length (filter (zero_scored nc col) (rows df)) \<and>
   correct_count (column_stats nc df col) = length (filter (nonzero_scored nc col) (rows df))"
  by (simp add: column_stats_def fold_score_row Let_def)

text \<open>
  Claim C6. For a row that is not skipped and whose score cell is answered and converts
  to a number: if the number is zero, the row adds the student's stripped name to
  \<open>wrong_students\<close> and one to \<open>wrong_count\<close>, and changes nothing else; if it is
  not zero, the row adds one to \<open>correct_count\<close> and changes nothing else. So for
  every column, \<open>wrong_students\<close> lists the names of the rows scored zero, in row
  order, \<open>wrong_count\<close> is their number, and \<open>correct_count\<close> is the number of rows
  scored with another number.
\<close>

theorem zero_score_is_wrong:
  "(\<not> row_skipped nc row \<and> \<not> unanswered (row col) \<and> py_float (row col) = Inr v \<longrightarrow>
      score_row nc col row t =
        (if v = Finite 0
         then t\<lparr>wrong_students := wrong_students t @ [strip (py_str (row nc))],
                wrong_count := wrong_count t + 1\<rparr>
         else t\<lparr>correct_count := correct_count t + 1\<rparr>)) \<and>
   wrong_students (column_stats nc df col) =
     map (\<lambda>r. strip (py_str (r nc))) (filter (zero_scored nc col) (rows df)) \<and>
   wrong_count (column_stats nc df col) = length (filter (zero_scored nc col) (rows df)) \<and>
   correct_count (column_stats nc df col) = length (filter (nonzero_scored nc col) (rows df))"
  using score_row_number[of nc row col v t] column_stats_tally[of nc df col] by blast

lemma strip_names [simp]:
  "strip alice = alice" "strip bob = bob" "strip carol = carol"
  by (simp_all add: strip_def isspace_def alice_def bob_def carol_def ascii_def)

lemma names_not_echo [simp]:
  "alice \<notin> set header_echo" "bob \<notin> set header_echo" "carol \<notin> set header_echo"
  "alice \<noteq> []" "bob \<noteq> []" "carol \<noteq> []"
  by (simp_all add: header_echo_def alice_def bob_def carol_def ascii_def marker_defs)

lemma label_neqs [simp]:
  "subjective_1_header \<noteq> name_marker" "objective_1_header \<noteq> name_marker"
  "subjective_1_header \<noteq> objective_1_header"
  by (simp_all add: marker_defs)

lemma example_row_simps [simp]:
  "example_row n ob su (StrLabel name_marker) = text_cell n"
  "example_row n ob su (StrLabel objective_1_header) = ob"
  "example_row n ob su (StrLabel subjective_1_header) = su"
  by (simp_all add: example_row_def)

lemma unanswered_examples:
  "unanswered (text_cell (ascii ''-''))" "unanswered (text_cell [])" "unanswered NaN"
  "unanswered (Str (ascii ''NaN'') (Some NotANumber))"
  "unanswered (Str (ascii ''nan'') (Some NotANumber))"
  "\<not> unanswered (text_cell (ascii ''A''))"
  "\<not> unanswered (Num 0 (ascii ''0''))" "\<not> unanswered (Num 2 (ascii ''2''))"
  by (simp_all add: unanswered_def unanswered_tokens_def text_cell_def strip_def isspace_def
      ascii_def)

lemma example_rows_zero_scored:
  "filter (zero_scored (StrLabel name_marker) (StrLabel subjective_1_header)) (rows example_frame) =
     [example_row bob (text_cell (ascii ''B'')) (Num 0 (ascii ''0''))]"
  "filter (nonzero_scored (StrLabel name_marker) (StrLabel subjective_1_header)) (rows example_frame) =
     [example_row alice (text_cell (ascii ''A'')) (Num 2 (ascii ''2''))]"
  by (simp_all add: example_frame_def zero_scored_def nonzero_scored_def row_skipped_def
      unanswered_examples text_cell_def)

theorem zero_score_is_wrong_witness:
  "\<not> row_skipped (StrLabel name_marker) (example_row bob (text_cell (ascii ''B'')) (Num 0 (ascii ''0''))) \<and>
   \<not> unanswered (Num 0 (ascii ''0'')) \<and>
   py_float (Num 0 (ascii ''0'')) = Inr (Finite 0) \<and>
   score_row (StrLabel name_marker) (StrLabel subjective_1_header)
     (example_row bob (text_cell (ascii ''B'')) (Num 0 (ascii ''0''))) empty_tally =
     \<lparr>wrong_students = [bob], correct_count = 0, wrong_count = 1\<rparr> \<and>
   score_row (StrLabel name_marker) (StrLabel subjective_1_header)
     (example_row alice (text_cell (ascii ''A'')) (Num 2 (ascii ''2''))) empty_tally =
     \<lparr>wrong_students = [], correct_count = 1, wrong_count = 0\<rparr> \<and>
   wrong_students (column_stats (StrLabel name_marker) example_frame (StrLabel subjective_1_header)) = [bob] \<and>
   wrong_count (column_stats (StrLabel name_marker) example_frame (StrLabel subjective_1_header)) = 1 \<and>
   correct_count (column_stats (StrLabel name_marker) example_frame (StrLabel subjective_1_header)) = 1"
proof -
  let ?nc = "StrLabel name_marker" and ?col = "StrLabel subjective_1_header"
  let ?bob = "example_row bob (text_cell (ascii ''B'')) (Num 0 (ascii ''0''))"
  let ?alice = "example_row alice (text_cell (ascii ''A'')) (Num 2 (ascii ''2''))"
  have b1: "\<not> row_skipped ?nc ?bob"
    by (simp add: row_skipped_def text_cell_def)
  have b2: "\<not> unanswered (?bob ?col)"
    by (simp add: unanswered_examples)
  have b3: "py_float (?bob ?col) = Inr (Finite 0)"
    by simp
  have a1: "\<not> row_skipped ?nc ?alice"
    by (simp add: row_skipped_def text_cell_def)
  have a2: "\<not> unanswered (?alice ?col)"
    by (simp add: unanswered_examples)
  have a3: "py_float (?alice ?col) = Inr (Finite 2)"
    by simp
  from zero_score_is_wrong[of ?nc ?bob ?col "Finite 0" empty_tally example_frame] b1 b2 b3
  have rb: "score_row ?nc ?col ?bob empty_tally =
     \<lparr>wrong_students = [bob], correct_count = 0, wrong_count = 1\<rparr>"
    and cw: "wrong_students (column_stats ?nc example_frame ?col) = [bob]"
    and cn: "wrong_count (column_stats ?nc example_frame ?col) = 1"
    and cc: "correct_count (column_stats ?nc example_frame ?col) = 1"
    by (simp_all add: empty_tally_def text_cell_def example_rows_zero_scored)
  from zero_score_is_wrong[of ?nc ?alice ?col "Finite 2" empty_tally example_frame] a1 a2 a3
  have ra: "score_row ?nc ?col ?alice empty_tally =
     \<lparr>wrong_students = [], correct_count = 1, wrong_count = 0\<rparr>"
    by (simp add: empty_tally_def)
  from b1 b2 b3 ra rb cw cn cc show ?thesis
    by (simp add: unanswered_examples)
qed

lemma score_row_not_scorable: "not_scorable (row col) \<Longrightarrow> score_row nc col row t = t"
  by (auto simp: not_scorable_def score_row_skipped score_row_not_number split: sum.splits)

lemma fold_without_not_scorable:
  "fold (score_row nc col) (filter (\<lambda>r. \<not> not_scorable (r col)) rs) t =
     fold (score_row nc col) rs t"
  by (induction rs arbitrary: t) (simp_all add: score_row_not_scorable)

text \<open>
  Claim C8. A row whose score cell is unanswered (its stripped text is \<open>-\<close>, empty,
  \<open>nan\<close> or \<open>NaN\<close>) or does not convert to a number leaves the tally as it is;
  and the statistics of a column are the same as for the frame without such rows.
\<close>

theorem unanswered_excluded:
  "(not_scorable (row col) \<longrightarrow> score_row nc col row t = t) \<and>
   column_stats nc (df\<lparr>rows := filter (\<lambda>r. \<not> not_scorable (r col)) (rows df)\<rparr>) col =
     column_stats nc df col"
  by (simp add: score_row_not_scorable column_stats_def fold_without_not_scorable)

theorem unanswered_excluded_witness:
  "not_scorable (text_cell (ascii ''-'')) \<and> not_scorable (text_cell []) \<and>
   not_scorable NaN \<and> not_scorable (Str (ascii ''NaN'') (Some NotANumber)) \<and>
   not_scorable (text_cell (ascii ''A'')) \<and>
   score_row (StrLabel name_marker) (StrLabel subjective_1_header)
     (example_row carol (text_cell (ascii ''A'')) (text_cell (ascii ''-'')))
     \<lparr>wrong_students = [bob], correct_count = 1, wrong_count = 1\<rparr> =
     \<lparr>wrong_students = [bob], correct_count = 1, wrong_count = 1\<rparr> \<and>
   score_row (StrLabel name_marker) (StrLabel objective_1_header)
     (example_row carol (text_cell (ascii ''A'')) (text_cell (ascii ''-'')))
     \<lparr>wrong_students = [bob], correct_count = 1, wrong_count = 1\<rparr> =
     \<lparr>wrong_students = [bob], correct_count = 1, wrong_count = 1\<rparr>"
proof -
  let ?carol = "example_row carol (text_cell (ascii ''A'')) (text_cell (ascii ''-''))"
  let ?t = "\<lparr>wrong_students = [bob], correct_count = 1, wrong_count = 1\<rparr>"
  have n: "not_scorable (text_cell (ascii ''-''))" "not_scorable (text_cell [])"
    "not_scorable NaN" "not_scorable (Str (ascii ''NaN'') (Some NotANumber))"
    by (simp_all add: not_scorable_def unanswered_examples)
  have a: "not_scorable (text_cell (ascii ''A''))"
    by (simp add: not_scorable_def text_cell_def)
  have c1: "not_scorable (?carol (StrLabel subjective_1_header))"
    using n(1) by simp
  have c2: "not_scorable (?carol (StrLabel objective_1_header))"
    using a by simp
  from unanswered_excluded[of ?carol "StrLabel subjective_1_header" "StrLabel name_marker" ?t] c1
  have r1: "score_row (StrLabel name_marker) (StrLabel subjective_1_header) ?carol ?t = ?t"
    by blast
  from unanswered_excluded[of ?carol "StrLabel objective_1_header" "StrLabel name_marker" ?t] c2
  have r2: "score_row (StrLabel name_marker) (StrLabel objective_1_header) ?carol ?t = ?t"
    by blast
  from n a r1 r2 show ?thesis by blast
qed

text \<open>
  In the example frame the subjective column is the third column of the table and
  question 1 of the result: one correct answer, one wrong answer by Bob, and Carol's
  unanswered cell left out.
\<close>

lemma example_score_columns:
  "choose_score_columns (classify_columns (StrLabel name_marker) (columns example_frame)) =
     [StrLabel subjective_1_header]"
  by (simp add: example_frame_def classify_columns_def classify_column_def
      choose_score_columns_def is_question_column_def is_subjective_header_def
      is_objective_header_def marker_defs Let_def)

lemma example_rows_scored:
  "score_row (StrLabel name_marker) (StrLabel subjective_1_header)
     (example_row alice ob (Num 2 (ascii ''2''))) t = t\<lparr>correct_count := correct_count t + 1\<rparr>"
  "score_row (StrLabel name_marker) (StrLabel subjective_1_header)
     (example_row bob ob (Num 0 (ascii ''0''))) t =
     t\<lparr>wrong_students := wrong_students t @ [bob], wrong_count := wrong_count t + 1\<rparr>"
  "score_row (StrLabel name_marker) (StrLabel subjective_1_header)
     (example_row carol ob (text_cell (ascii ''-''))) t = t"
proof -
  show "score_row (StrLabel name_marker) (StrLabel subjective_1_header)
     (example_row alice ob (Num 2 (ascii ''2''))) t = t\<lparr>correct_count := correct_count t + 1\<rparr>"
    by (subst score_row_number[where v = "Finite 2"])
       (simp_all add: row_skipped_def text_cell_def unanswered_examples)
  show "score_row (StrLabel name_marker) (StrLabel subjective_1_header)
     (example_row bob ob (Num 0 (ascii ''0''))) t =
     t\<lparr>wrong_students := wrong_students t @ [bob], wrong_count := wrong_count t + 1\<rparr>"
    by (subst score_row_number[where v = "Finite 0"])
       (simp_all add: row_skipped_def text_cell_def unanswered_examples)
  show "score_row (StrLabel name_marker) (StrLabel subjective_1_header)
     (example_row carol ob (text_cell (ascii ''-''))) t = t"
    by (rule score_row_skipped) (simp add: unanswered_examples)
qed

lemma example_column_stats:
  "column_stats (StrLabel name_marker) example_frame (StrLabel subjective_1_header) =
     \<lparr>wrong_students = [bob], correct_count = 1, wrong_count = 1, correct_rate = 50,
      column_name = StrLabel subjective_1_header\<rparr>"
  by (simp add: column_stats_def example_frame_def example_rows_scored Let_def)

theorem question_numbering_witness:
  "find_name_column (columns example_frame) = Inr (StrLabel name_marker) \<and>
   columns example_frame ! 2 = StrLabel subjective_1_header \<and>
   (\<exists>stats. analyze_questions example_frame = Inr stats \<and> dom stats = {1} \<and>
      stats 1 = Some \<lparr>wrong_students = [bob], correct_count = 1, wrong_count = 1,
                      correct_rate = 50, column_name = StrLabel subjective_1_header\<rparr>)"
proof -
  have h: "find_name_column (columns example_frame) = Inr (StrLabel name_marker)"
    by (simp add: find_name_column_def example_frame_def is_name_header_def name_marker_def)
  have p: "columns example_frame ! 2 = StrLabel subjective_1_header"
    by (simp add: example_frame_def)
  from question_numbering[OF h] obtain stats where
    s: "analyze_questions example_frame = Inr stats"
      "dom stats = {1 .. length [StrLabel subjective_1_header]}"
      "\<forall>i < length [StrLabel subjective_1_header].
         stats (Suc i) = Some (column_stats (StrLabel name_marker) example_frame
                                 ([StrLabel subjective_1_header] ! i))"
    unfolding example_score_columns by blast
  from s(2) have d: "dom stats = {1}" by simp
  from s(3) have "stats (Suc 0) = Some (column_stats (StrLabel name_marker) example_frame
      (StrLabel subjective_1_header))"
    by simp
  then have "stats 1 = Some \<lparr>wrong_students = [bob], correct_count = 1, wrong_count = 1,
                      correct_rate = 50, column_name = StrLabel subjective_1_header\<rparr>"
    by (simp add: example_column_stats)
  with h p s(1) d show ?thesis by blast
qed

end
